theory Spec2Isabelle
  imports Complex_Main
begin

section \<open>Numbers, vectors, quaternions and matrices\<close>

text \<open>
  The C++ sources compute on \<^verbatim>\<open>double\<close> through the Eigen library. Every \<^verbatim>\<open>double\<close> is
  modelled as a \<^typ>\<open>real\<close>: the development is about the formulas the code evaluates and
  about the order in which it evaluates them, not about rounding, overflow or NaN. The
  exception is the rotation delta of the preintegration engine, whose norm depends on
  the range of a \<^verbatim>\<open>double\<close>: it is computed a second time on doubles with overflow,
  infinities and NaN.

  Eigen itself is a library outside the repository. Its operations are written out below
  from Eigen's definitions: the Hamilton product of two quaternions, the rotation of a
  vector by a quaternion, the rotation matrix of a quaternion, and normalisation.
\<close>

datatype Vector3d = Vector3d (v0: real) (v1: real) (v2: real)

definition Vector3d_Zero :: Vector3d where
  "Vector3d_Zero = Vector3d 0 0 0"

definition vadd :: "Vector3d \<Rightarrow> Vector3d \<Rightarrow> Vector3d" where
  "vadd a b = Vector3d (v0 a + v0 b) (v1 a + v1 b) (v2 a + v2 b)"

definition vsub :: "Vector3d \<Rightarrow> Vector3d \<Rightarrow> Vector3d" where
  "vsub a b = Vector3d (v0 a - v0 b) (v1 a - v1 b) (v2 a - v2 b)"

text \<open>\<open>svmul c v\<close> is the C++ \<^verbatim>\<open>c * v\<close>, \<open>vmuls v c\<close> is \<^verbatim>\<open>v * c\<close>.\<close>

definition svmul :: "real \<Rightarrow> Vector3d \<Rightarrow> Vector3d" where
  "svmul c v = Vector3d (c * v0 v) (c * v1 v) (c * v2 v)"

definition vmuls :: "Vector3d \<Rightarrow> real \<Rightarrow> Vector3d" where
  "vmuls v c = Vector3d (v0 v * c) (v1 v * c) (v2 v * c)"

definition cross :: "Vector3d \<Rightarrow> Vector3d \<Rightarrow> Vector3d" where
  "cross a b = Vector3d (v1 a * v2 b - v2 a * v1 b)
                        (v2 a * v0 b - v0 a * v2 b)
                        (v0 a * v1 b - v1 a * v0 b)"

text \<open>Eigen's constructor \<^verbatim>\<open>Quaterniond(w, x, y, z)\<close> takes the scalar part first.\<close>

datatype Quaterniond = Quaterniond (qw: real) (qx: real) (qy: real) (qz: real)

definition Quaterniond_Identity :: Quaterniond where
  "Quaterniond_Identity = Quaterniond 1 0 0 0"

definition qvec :: "Quaterniond \<Rightarrow> Vector3d" where
  "qvec q = Vector3d (qx q) (qy q) (qz q)"

text \<open>\<^verbatim>\<open>a * b\<close> on two quaternions.\<close>

definition qmul :: "Quaterniond \<Rightarrow> Quaterniond \<Rightarrow> Quaterniond" where
  "qmul a b = Quaterniond
     (qw a * qw b - qx a * qx b - qy a * qy b - qz a * qz b)
     (qw a * qx b + qx a * qw b + qy a * qz b - qz a * qy b)
     (qw a * qy b + qy a * qw b + qz a * qx b - qx a * qz b)
     (qw a * qz b + qz a * qw b + qx a * qy b - qy a * qx b)"

text \<open>
  \<^verbatim>\<open>q * v\<close> on a quaternion and a vector: Eigen computes \<^verbatim>\<open>uv = 2 * q.vec().cross(v)\<close>
  and returns \<^verbatim>\<open>v + q.w() * uv + q.vec().cross(uv)\<close>.
\<close>

definition qrot :: "Quaterniond \<Rightarrow> Vector3d \<Rightarrow> Vector3d" where
  "qrot q v = (let uv = cross (qvec q) v; uv2 = vadd uv uv
               in vadd (vadd v (svmul (qw q) uv2)) (cross (qvec q) uv2))"

definition squaredNorm :: "Quaterniond \<Rightarrow> real" where
  "squaredNorm q = qw q * qw q + qx q * qx q + qy q * qy q + qz q * qz q"

definition norm_q :: "Quaterniond \<Rightarrow> real" where
  "norm_q q = sqrt (squaredNorm q)"

text \<open>
  \<^verbatim>\<open>q.normalize()\<close>: Eigen divides the four coefficients by the norm when the squared norm
  is positive and leaves the quaternion alone otherwise. On real numbers the squared
  norm neither overflows nor is NaN; \<open>d_normalize\<close> below is the same function on doubles,
  where it does.
\<close>

definition normalize_q :: "Quaterniond \<Rightarrow> Quaterniond" where
  "normalize_q q = (let z = squaredNorm q in
     if z > 0 then Quaterniond (qw q / sqrt z) (qx q / sqrt z) (qy q / sqrt z) (qz q / sqrt z)
     else q)"

text \<open>
  A matrix is the function from a row and a column index to the coefficient. The 3x3
  and the 15x15 matrices of the source have the value 0 outside their rows and columns.
\<close>

type_synonym mat = "nat \<Rightarrow> nat \<Rightarrow> real"

definition Matrix_Zero :: mat where
  "Matrix_Zero = (\<lambda>i j. 0)"

definition Matrix_Identity :: "nat \<Rightarrow> mat" where
  "Matrix_Identity n = (\<lambda>i j. if i = j \<and> i < n then 1 else 0)"

text \<open>The comma initialiser \<^verbatim>\<open>M << a, b, c, d, e, f, g, h, k\<close> fills a 3x3 matrix row by row.\<close>

definition Matrix3d :: "real \<Rightarrow> real \<Rightarrow> real \<Rightarrow> real \<Rightarrow> real \<Rightarrow> real \<Rightarrow> real \<Rightarrow> real \<Rightarrow> real \<Rightarrow> mat" where
  "Matrix3d a b c d e f g h k = (\<lambda>i j.
     if i = 0 then (if j = 0 then a else if j = 1 then b else if j = 2 then c else 0)
     else if i = 1 then (if j = 0 then d else if j = 1 then e else if j = 2 then f else 0)
     else if i = 2 then (if j = 0 then g else if j = 1 then h else if j = 2 then k else 0)
     else 0)"

definition madd :: "mat \<Rightarrow> mat \<Rightarrow> mat" where
  "madd A B = (\<lambda>i j. A i j + B i j)"

definition msub :: "mat \<Rightarrow> mat \<Rightarrow> mat" where
  "msub A B = (\<lambda>i j. A i j - B i j)"

text \<open>\<open>smul c A\<close> is the C++ \<^verbatim>\<open>c * A\<close>, \<open>muls A c\<close> is \<^verbatim>\<open>A * c\<close>.\<close>

definition smul :: "real \<Rightarrow> mat \<Rightarrow> mat" where
  "smul c A = (\<lambda>i j. c * A i j)"

definition muls :: "mat \<Rightarrow> real \<Rightarrow> mat" where
  "muls A c = (\<lambda>i j. A i j * c)"

text \<open>The product of an \<open>m\<close>x\<open>n\<close> matrix with an \<open>n\<close>x\<open>p\<close> matrix.\<close>

definition mmul :: "nat \<Rightarrow> mat \<Rightarrow> mat \<Rightarrow> mat" where
  "mmul n A B = (\<lambda>i j. \<Sum>k<n. A i k * B k j)"

text \<open>\<^verbatim>\<open>F.block<3, 3>(r, c) = M\<close> overwrites the 3x3 block whose top left corner is \<open>(r, c)\<close>.\<close>

definition set_block :: "nat \<Rightarrow> nat \<Rightarrow> mat \<Rightarrow> mat \<Rightarrow> mat" where
  "set_block r c M F = (\<lambda>i j.
     if r \<le> i \<and> i < r + 3 \<and> c \<le> j \<and> j < c + 3 then M (i - r) (j - c) else F i j)"

text \<open>
  \<^verbatim>\<open>q.toRotationMatrix()\<close>, as Eigen computes it (it does not normalise the quaternion).
\<close>

definition toRotationMatrix :: "Quaterniond \<Rightarrow> mat" where
  "toRotationMatrix q = (let
       tx = 2 * qx q; ty = 2 * qy q; tz = 2 * qz q;
       twx = tx * qw q; twy = ty * qw q; twz = tz * qw q;
       txx = tx * qx q; txy = ty * qx q; txz = tz * qx q;
       tyy = ty * qy q; tyz = tz * qy q; tzz = tz * qz q
     in Matrix3d (1 - (tyy + tzz)) (txy - twz) (txz + twy)
                 (txy + twz) (1 - (txx + tzz)) (tyz - twx)
                 (txz - twy) (tyz + twx) (1 - (txx + tyy)))"

section \<open>The preintegration engine (integrationBase.h)\<close>

text \<open>
  Modelled from the spec: the block offsets \<^verbatim>\<open>GlobalState::pos_\<close>, \<^verbatim>\<open>vel_\<close>, \<^verbatim>\<open>att_\<close>,
  \<^verbatim>\<open>acc_\<close> and \<^verbatim>\<open>gyr_\<close> are declared in KalmanFilter.hpp, which is not among the sources.
  The spec orders the 15 error states as the blocks position, velocity, attitude,
  accelerometer bias, gyroscope bias, each of three rows.
\<close>

definition GlobalState_pos :: nat where "GlobalState_pos = 0"
definition GlobalState_vel :: nat where "GlobalState_vel = 3"
definition GlobalState_att :: nat where "GlobalState_att = 6"
definition GlobalState_acc :: nat where "GlobalState_acc = 9"
definition GlobalState_gyr :: nat where "GlobalState_gyr = 12"

text \<open>
  The members of \<^verbatim>\<open>class IntegrationBase\<close>. The constructor leaves \<^verbatim>\<open>dt\<close>, \<^verbatim>\<open>acc_1\<close> and
  \<^verbatim>\<open>gyr_1\<close> without a value, which is \<open>None\<close> here; the members \<^verbatim>\<open>G\<close>, \<^verbatim>\<open>step_jacobian\<close>,
  \<^verbatim>\<open>step_V\<close> and \<^verbatim>\<open>noise\<close> are never read nor written by the class and are left out.
\<close>

record IntegrationBase =
  dt :: "real option"
  acc_0 :: Vector3d
  gyr_0 :: Vector3d
  acc_1 :: "Vector3d option"
  gyr_1 :: "Vector3d option"
  linearized_acc :: Vector3d
  linearized_gyr :: Vector3d
  linearized_ba :: Vector3d
  linearized_bg :: Vector3d
  jacobian :: mat
  covariance :: mat
  sum_dt :: real
  delta_p :: Vector3d
  delta_q :: Quaterniond
  delta_v :: Vector3d
  dt_buf :: "real list"
  acc_buf :: "Vector3d list"
  gyr_buf :: "Vector3d list"

text \<open>The constructor. The three sample histories start empty.\<close>

definition IntegrationBase :: "Vector3d \<Rightarrow> Vector3d \<Rightarrow> Vector3d \<Rightarrow> Vector3d \<Rightarrow> IntegrationBase" where
  "IntegrationBase acc_0' gyr_0' linearized_ba' linearized_bg' =
     \<lparr> dt = None,
       acc_0 = acc_0',
       gyr_0 = gyr_0',
       acc_1 = None,
       gyr_1 = None,
       linearized_acc = acc_0',
       linearized_gyr = gyr_0',
       linearized_ba = linearized_ba',
       linearized_bg = linearized_bg',
       jacobian = Matrix_Identity 15,
       covariance = Matrix_Zero,
       sum_dt = 0,
       delta_p = Vector3d_Zero,
       delta_q = Quaterniond_Identity,
       delta_v = Vector3d_Zero,
       dt_buf = [],
       acc_buf = [],
       gyr_buf = [] \<rparr>"

text \<open>
  The skew-symmetric matrix the source writes out three times
  (\<^verbatim>\<open>R_w_x\<close>, \<^verbatim>\<open>R_a_0_x\<close>, \<^verbatim>\<open>R_a_1_x\<close>).
\<close>

definition skew :: "Vector3d \<Rightarrow> mat" where
  "skew w = Matrix3d 0 (- v2 w) (v1 w)
                     (v2 w) 0 (- v0 w)
                     (- v1 w) (v0 w) 0"

text \<open>
  The per-step transition matrix \<^verbatim>\<open>F\<close> of \<^verbatim>\<open>midPointIntegration\<close>: a 15x15 zero matrix whose
  blocks are assigned in the order of the source. A parameter that the source writes
  with a leading underscore, or that shadows a member, carries a prime here.
\<close>

definition transition_F ::
  "real \<Rightarrow> Vector3d \<Rightarrow> Vector3d \<Rightarrow> Vector3d \<Rightarrow> Vector3d \<Rightarrow> Quaterniond \<Rightarrow> Quaterniond \<Rightarrow>
   Vector3d \<Rightarrow> Vector3d \<Rightarrow> mat" where
  "transition_F dt' acc_0' gyr_0' acc_1' gyr_1' delta_q' result_delta_q linearized_ba' linearized_bg' =
    (let w_x = vsub (svmul 0.5 (vadd gyr_0' gyr_1')) linearized_bg';
         a_0_x = vsub acc_0' linearized_ba';
         a_1_x = vsub acc_1' linearized_ba';
         R_w_x = skew w_x;
         R_a_0_x = skew a_0_x;
         R_a_1_x = skew a_1_x;
         I3 = Matrix_Identity 3;
         R0 = toRotationMatrix delta_q';
         R1 = toRotationMatrix result_delta_q;
         F = Matrix_Zero;
         F = set_block GlobalState_pos GlobalState_pos I3 F;
         F = set_block GlobalState_pos GlobalState_vel (muls I3 dt') F;
         F = set_block GlobalState_pos GlobalState_att
               (madd (muls (muls (mmul 3 (smul (- 0.25) R0) R_a_0_x) dt') dt')
                     (muls (muls (mmul 3 (mmul 3 (smul (- 0.25) R1) R_a_1_x)
                                         (msub I3 (muls R_w_x dt'))) dt') dt')) F;
         F = set_block GlobalState_pos GlobalState_acc
               (muls (muls (smul (- 0.25) (madd R0 R1)) dt') dt') F;
         F = set_block GlobalState_pos GlobalState_gyr
               (muls (muls (muls (mmul 3 (smul (- 0.25) R1) R_a_1_x) dt') dt') (- dt')) F;
         F = set_block GlobalState_vel GlobalState_att
               (madd (muls (mmul 3 (smul (- 0.5) R0) R_a_0_x) dt')
                     (muls (mmul 3 (mmul 3 (smul (- 0.5) R1) R_a_1_x)
                                   (msub I3 (muls R_w_x dt'))) dt')) F;
         F = set_block GlobalState_vel GlobalState_vel I3 F;
         F = set_block GlobalState_vel GlobalState_acc
               (muls (smul (- 0.5) (madd R0 R1)) dt') F;
         F = set_block GlobalState_vel GlobalState_gyr
               (muls (muls (mmul 3 (smul (- 0.5) R1) R_a_1_x) dt') (- dt')) F;
         F = set_block GlobalState_att GlobalState_att (msub I3 (muls R_w_x dt')) F;
         F = set_block GlobalState_att GlobalState_gyr (muls (smul (- 1.0) I3) dt') F;
         F = set_block GlobalState_acc GlobalState_acc I3 F;
         F = set_block GlobalState_gyr GlobalState_gyr I3 F
     in F)"

text \<open>
  \<^verbatim>\<open>midPointIntegration\<close>. The five reference parameters it writes are the first five
  components of the result; the sixth is the member \<^verbatim>\<open>jacobian\<close>, which the function
  overwrites when \<^verbatim>\<open>update_jacobian\<close> is set and which is passed in as \<open>jacobian'\<close>.
\<close>

definition midPointIntegration ::
  "real \<Rightarrow> Vector3d \<Rightarrow> Vector3d \<Rightarrow> Vector3d \<Rightarrow> Vector3d \<Rightarrow>
   Vector3d \<Rightarrow> Quaterniond \<Rightarrow> Vector3d \<Rightarrow> Vector3d \<Rightarrow> Vector3d \<Rightarrow> bool \<Rightarrow> mat \<Rightarrow>
   Vector3d \<times> Quaterniond \<times> Vector3d \<times> Vector3d \<times> Vector3d \<times> mat" where
  "midPointIntegration dt' acc_0' gyr_0' acc_1' gyr_1' delta_p' delta_q' delta_v'
       linearized_ba' linearized_bg' update_jacobian jacobian' =
    (let un_acc_0 = qrot delta_q' (vsub acc_0' linearized_ba');
         un_gyr = vsub (svmul 0.5 (vadd gyr_0' gyr_1')) linearized_bg';
         result_delta_q = qmul delta_q'
            (Quaterniond 1 (v0 un_gyr * dt' / 2) (v1 un_gyr * dt' / 2) (v2 un_gyr * dt' / 2));
         un_acc_1 = qrot result_delta_q (vsub acc_1' linearized_ba');
         un_acc = svmul 0.5 (vadd un_acc_0 un_acc_1);
         result_delta_p =
            vadd (vadd delta_p' (vmuls delta_v' dt')) (vmuls (vmuls (svmul 0.5 un_acc) dt') dt');
         result_delta_v = vadd delta_v' (vmuls un_acc dt');
         result_linearized_ba = linearized_ba';
         result_linearized_bg = linearized_bg';
         result_jacobian =
           (if update_jacobian
            then mmul 15 (transition_F dt' acc_0' gyr_0' acc_1' gyr_1' delta_q' result_delta_q
                            linearized_ba' linearized_bg') jacobian'
            else jacobian')
     in (result_delta_p, result_delta_q, result_delta_v,
         result_linearized_ba, result_linearized_bg, result_jacobian))"

text \<open>\<^verbatim>\<open>propagate\<close>: one integration step, written back into the members.\<close>

definition propagate :: "real \<Rightarrow> Vector3d \<Rightarrow> Vector3d \<Rightarrow> IntegrationBase \<Rightarrow> IntegrationBase" where
  "propagate dt' acc_1' gyr_1' s =
    (case midPointIntegration dt' (acc_0 s) (gyr_0 s) acc_1' gyr_1'
            (delta_p s) (delta_q s) (delta_v s) (linearized_ba s) (linearized_bg s)
            True (jacobian s) of
       (result_delta_p, result_delta_q, result_delta_v,
        result_linearized_ba, result_linearized_bg, result_jacobian) \<Rightarrow>
         s \<lparr> dt := Some dt',
             acc_1 := Some acc_1',
             gyr_1 := Some gyr_1',
             jacobian := result_jacobian,
             delta_p := result_delta_p,
             delta_q := normalize_q result_delta_q,
             delta_v := result_delta_v,
             linearized_ba := result_linearized_ba,
             linearized_bg := result_linearized_bg,
             sum_dt := sum_dt s + dt',
             acc_0 := acc_1',
             gyr_0 := gyr_1' \<rparr>)"

text \<open>\<^verbatim>\<open>push_back\<close>: the integrate call of the spec.\<close>

definition push_back :: "real \<Rightarrow> Vector3d \<Rightarrow> Vector3d \<Rightarrow> IntegrationBase \<Rightarrow> IntegrationBase" where
  "push_back dt' acc gyr s =
     propagate dt' acc gyr
       (s \<lparr> dt_buf := dt_buf s @ [dt'], acc_buf := acc_buf s @ [acc], gyr_buf := gyr_buf s @ [gyr] \<rparr>)"

definition setBa :: "Vector3d \<Rightarrow> IntegrationBase \<Rightarrow> IntegrationBase" where
  "setBa ba s = s \<lparr> linearized_ba := ba \<rparr>"

definition setBg :: "Vector3d \<Rightarrow> IntegrationBase \<Rightarrow> IntegrationBase" where
  "setBg bg s = s \<lparr> linearized_bg := bg \<rparr>"

text \<open>
  The calls a client can make on an engine, and the engine after a list of them, oldest
  first.
\<close>

datatype call = Push_back real Vector3d Vector3d
  | Propagate real Vector3d Vector3d
  | SetBa Vector3d
  | SetBg Vector3d

fun apply_call :: "call \<Rightarrow> IntegrationBase \<Rightarrow> IntegrationBase" where
  "apply_call (Push_back dt' acc gyr) s = push_back dt' acc gyr s"
| "apply_call (Propagate dt' acc gyr) s = propagate dt' acc gyr s"
| "apply_call (SetBa ba) s = setBa ba s"
| "apply_call (SetBg bg) s = setBg bg s"

fun apply_calls :: "call list \<Rightarrow> IntegrationBase \<Rightarrow> IntegrationBase" where
  "apply_calls [] s = s"
| "apply_calls (c # cs) s = apply_calls cs (apply_call c s)"

text \<open>
  The transition matrix of one integration step from the engine \<open>s\<close>: the matrix \<^verbatim>\<open>F\<close> that
  \<^verbatim>\<open>midPointIntegration\<close> builds for the sample, and the list of these matrices along a
  list of calls, oldest first. \<open>compose_left\<close> multiplies each matrix of a list from the
  left onto what the earlier ones gave.
\<close>

definition step_F :: "real \<Rightarrow> Vector3d \<Rightarrow> Vector3d \<Rightarrow> IntegrationBase \<Rightarrow> mat" where
  "step_F dt' acc_1' gyr_1' s =
    (case midPointIntegration dt' (acc_0 s) (gyr_0 s) acc_1' gyr_1'
            (delta_p s) (delta_q s) (delta_v s) (linearized_ba s) (linearized_bg s)
            False (jacobian s) of
       (result_delta_p, result_delta_q, rest) \<Rightarrow>
         transition_F dt' (acc_0 s) (gyr_0 s) acc_1' gyr_1' (delta_q s) result_delta_q
           (linearized_ba s) (linearized_bg s))"

fun transitions :: "call list \<Rightarrow> IntegrationBase \<Rightarrow> mat list" where
  "transitions [] s = []"
| "transitions (Push_back dt' acc gyr # cs) s =
     step_F dt' acc gyr s # transitions cs (push_back dt' acc gyr s)"
| "transitions (Propagate dt' acc gyr # cs) s =
     step_F dt' acc gyr s # transitions cs (propagate dt' acc gyr s)"
| "transitions (SetBa ba # cs) s = transitions cs (setBa ba s)"
| "transitions (SetBg bg # cs) s = transitions cs (setBg bg s)"

definition compose_left :: "mat list \<Rightarrow> mat \<Rightarrow> mat" where
  "compose_left Fs J = foldl (\<lambda>J F. mmul 15 F J) J Fs"

subsection \<open>The rotation delta on IEEE doubles\<close>

text \<open>
  The definitions above take \<^verbatim>\<open>double\<close> as the real numbers. For the rotation delta the
  range of a \<^verbatim>\<open>double\<close> matters, so the statements of \<^verbatim>\<open>midPointIntegration\<close> and
  \<^verbatim>\<open>propagate\<close> that compute it are given a second time on a type of doubles that has the
  two infinities and NaN. An operation on finite operands has the exact result while that
  result is below the overflow threshold of round-to-nearest, \<open>2^1024 - 2^970\<close>, in
  magnitude, and the infinity of its sign from there on; on the other operands it follows
  IEEE 754 (\<open>inf - inf\<close>, \<open>0 * inf\<close>, \<open>inf / inf\<close> and \<open>0 / 0\<close> are NaN, a finite number
  divided by an infinity is 0, NaN propagates, every comparison with NaN is false).
  Rounding of finite results, underflow and the sign of zero are not represented.
  \<open>DBL_MIN\<close> is the smallest positive normal double.
\<close>

datatype double = Fin real | PInf | NInf | NaN

definition overflow_threshold :: real where
  "overflow_threshold = 2 ^ 1024 - 2 ^ 970"

definition DBL_MIN :: real where
  "DBL_MIN = 1 / 2 ^ 1022"

definition to_double :: "real \<Rightarrow> double" where
  "to_double x = (if overflow_threshold \<le> x then PInf
                  else if x \<le> - overflow_threshold then NInf
                  else Fin x)"

fun d_neg :: "double \<Rightarrow> double" where
  "d_neg (Fin a) = Fin (- a)"
| "d_neg PInf = NInf"
| "d_neg NInf = PInf"
| "d_neg NaN = NaN"

fun d_add :: "double \<Rightarrow> double \<Rightarrow> double" where
  "d_add (Fin a) (Fin b) = to_double (a + b)"
| "d_add NaN y = NaN"
| "d_add x NaN = NaN"
| "d_add PInf NInf = NaN"
| "d_add NInf PInf = NaN"
| "d_add PInf y = PInf"
| "d_add x PInf = PInf"
| "d_add NInf y = NInf"
| "d_add x NInf = NInf"

definition d_sub :: "double \<Rightarrow> double \<Rightarrow> double" where
  "d_sub x y = d_add x (d_neg y)"

definition inf_of_sign :: "bool \<Rightarrow> double" where
  "inf_of_sign positive = (if positive then PInf else NInf)"

fun d_mul :: "double \<Rightarrow> double \<Rightarrow> double" where
  "d_mul (Fin a) (Fin b) = to_double (a * b)"
| "d_mul NaN y = NaN"
| "d_mul x NaN = NaN"
| "d_mul (Fin a) PInf = (if a = 0 then NaN else inf_of_sign (0 < a))"
| "d_mul (Fin a) NInf = (if a = 0 then NaN else inf_of_sign (a < 0))"
| "d_mul PInf (Fin b) = (if b = 0 then NaN else inf_of_sign (0 < b))"
| "d_mul NInf (Fin b) = (if b = 0 then NaN else inf_of_sign (b < 0))"
| "d_mul PInf PInf = PInf"
| "d_mul NInf NInf = PInf"
| "d_mul PInf NInf = NInf"
| "d_mul NInf PInf = NInf"

fun d_div :: "double \<Rightarrow> double \<Rightarrow> double" where
  "d_div (Fin a) (Fin b) =
     (if b = 0 then (if a = 0 then NaN else inf_of_sign (0 < a)) else to_double (a / b))"
| "d_div NaN y = NaN"
| "d_div x NaN = NaN"
| "d_div (Fin a) PInf = Fin 0"
| "d_div (Fin a) NInf = Fin 0"
| "d_div PInf (Fin b) = inf_of_sign (0 \<le> b)"
| "d_div NInf (Fin b) = inf_of_sign (b < 0)"
| "d_div PInf PInf = NaN"
| "d_div PInf NInf = NaN"
| "d_div NInf PInf = NaN"
| "d_div NInf NInf = NaN"

fun d_sqrt :: "double \<Rightarrow> double" where
  "d_sqrt (Fin a) = (if a < 0 then NaN else Fin (sqrt a))"
| "d_sqrt PInf = PInf"
| "d_sqrt NInf = NaN"
| "d_sqrt NaN = NaN"

text \<open>The comparison \<^verbatim>\<open>z > 0\<close> on a double.\<close>

fun d_positive :: "double \<Rightarrow> bool" where
  "d_positive (Fin a) = (0 < a)"
| "d_positive PInf = True"
| "d_positive NInf = False"
| "d_positive NaN = False"

text \<open>
  Vectors and quaternions of doubles, with the operations of Eigen that the rotation delta
  goes through: the quaternion product, with the sums in the order in which Eigen writes
  them; \<^verbatim>\<open>squaredNorm()\<close> and \<^verbatim>\<open>norm()\<close> of the coefficient vector, which Eigen stores as
  \<open>x, y, z, w\<close>; and \<^verbatim>\<open>normalize()\<close>, which reads \<^verbatim>\<open>z = squaredNorm()\<close> and, if \<^verbatim>\<open>z > 0\<close>,
  divides the coefficients by \<^verbatim>\<open>sqrt(z)\<close>.
\<close>

datatype DVector3d = DVector3d (d0: double) (d1: double) (d2: double)

datatype DQuaterniond = DQuaterniond (dqw: double) (dqx: double) (dqy: double) (dqz: double)

definition d_qmul :: "DQuaterniond \<Rightarrow> DQuaterniond \<Rightarrow> DQuaterniond" where
  "d_qmul a b = DQuaterniond
     (d_sub (d_sub (d_sub (d_mul (dqw a) (dqw b)) (d_mul (dqx a) (dqx b)))
                   (d_mul (dqy a) (dqy b))) (d_mul (dqz a) (dqz b)))
     (d_sub (d_add (d_add (d_mul (dqw a) (dqx b)) (d_mul (dqx a) (dqw b)))
                   (d_mul (dqy a) (dqz b))) (d_mul (dqz a) (dqy b)))
     (d_sub (d_add (d_add (d_mul (dqw a) (dqy b)) (d_mul (dqy a) (dqw b)))
                   (d_mul (dqz a) (dqx b))) (d_mul (dqx a) (dqz b)))
     (d_sub (d_add (d_add (d_mul (dqw a) (dqz b)) (d_mul (dqz a) (dqw b)))
                   (d_mul (dqx a) (dqy b))) (d_mul (dqy a) (dqx b)))"

definition d_squaredNorm :: "DQuaterniond \<Rightarrow> double" where
  "d_squaredNorm q =
     d_add (d_add (d_add (d_mul (dqx q) (dqx q)) (d_mul (dqy q) (dqy q)))
                  (d_mul (dqz q) (dqz q))) (d_mul (dqw q) (dqw q))"

definition d_norm :: "DQuaterniond \<Rightarrow> double" where
  "d_norm q = d_sqrt (d_squaredNorm q)"

definition d_normalize :: "DQuaterniond \<Rightarrow> DQuaterniond" where
  "d_normalize q = (let z = d_squaredNorm q in
     if d_positive z
     then DQuaterniond (d_div (dqw q) (d_sqrt z)) (d_div (dqx q) (d_sqrt z))
                       (d_div (dqy q) (d_sqrt z)) (d_div (dqz q) (d_sqrt z))
     else q)"

text \<open>
  \<open>d_result_delta_q\<close> is \<^verbatim>\<open>result_delta_q\<close> of \<^verbatim>\<open>midPointIntegration\<close> on doubles:
  \<^verbatim>\<open>un_gyr = 0.5 * (_gyr_0 + _gyr_1) - linearized_bg\<close> and
  \<^verbatim>\<open>delta_q * Quaterniond(1, un_gyr(0) * _dt / 2, un_gyr(1) * _dt / 2, un_gyr(2) * _dt / 2)\<close>,
  each coefficient computed as the source writes it. \<open>d_propagate_delta_q\<close> is the member
  \<^verbatim>\<open>delta_q\<close> when \<^verbatim>\<open>propagate\<close> returns: \<^verbatim>\<open>delta_q = result_delta_q\<close> followed by
  \<^verbatim>\<open>delta_q.normalize()\<close>. The arguments stand for the step length, the members \<^verbatim>\<open>gyr_0\<close>,
  \<^verbatim>\<open>linearized_bg\<close> and \<^verbatim>\<open>delta_q\<close> of the engine and the angular rate of the new sample;
  \<^verbatim>\<open>push_back\<close> passes its arguments on to \<^verbatim>\<open>propagate\<close>.
\<close>

definition d_result_delta_q ::
  "double \<Rightarrow> DVector3d \<Rightarrow> DVector3d \<Rightarrow> DVector3d \<Rightarrow> DQuaterniond \<Rightarrow> DQuaterniond" where
  "d_result_delta_q dt' gyr_0' gyr_1' linearized_bg' delta_q' =
     (let un_gyr = DVector3d
            (d_sub (d_mul (Fin 0.5) (d_add (d0 gyr_0') (d0 gyr_1'))) (d0 linearized_bg'))
            (d_sub (d_mul (Fin 0.5) (d_add (d1 gyr_0') (d1 gyr_1'))) (d1 linearized_bg'))
            (d_sub (d_mul (Fin 0.5) (d_add (d2 gyr_0') (d2 gyr_1'))) (d2 linearized_bg'))
      in d_qmul delta_q'
           (DQuaterniond (Fin 1) (d_div (d_mul (d0 un_gyr) dt') (Fin 2))
                                 (d_div (d_mul (d1 un_gyr) dt') (Fin 2))
                                 (d_div (d_mul (d2 un_gyr) dt') (Fin 2))))"

definition d_propagate_delta_q ::
  "double \<Rightarrow> DVector3d \<Rightarrow> DVector3d \<Rightarrow> DVector3d \<Rightarrow> DQuaterniond \<Rightarrow> DQuaterniond" where
  "d_propagate_delta_q dt' gyr_0' gyr_1' linearized_bg' delta_q' =
     d_normalize (d_result_delta_q dt' gyr_0' gyr_1' linearized_bg' delta_q')"

text \<open>A vector and a quaternion of real numbers as finite doubles.\<close>

definition dvec :: "Vector3d \<Rightarrow> DVector3d" where
  "dvec v = DVector3d (Fin (v0 v)) (Fin (v1 v)) (Fin (v2 v))"

definition dquat :: "Quaterniond \<Rightarrow> DQuaterniond" where
  "dquat q = DQuaterniond (Fin (qw q)) (Fin (qx q)) (Fin (qy q)) (Fin (qz q))"

text \<open>
  A bound on the magnitude of a step length and of the coordinates of an angular rate or
  of a bias, far above any physical value, under which no operation on the way to the
  rotation delta overflows.
\<close>

definition rate_bound :: real where
  "rate_bound = 2 ^ 100"

definition vec_within :: "real \<Rightarrow> Vector3d \<Rightarrow> bool" where
  "vec_within b v = (\<bar>v0 v\<bar> \<le> b \<and> \<bar>v1 v\<bar> \<le> b \<and> \<bar>v2 v\<bar> \<le> b)"

text \<open>A step length of \<open>1e200\<close>, a finite double whose square is not one.\<close>

definition big_dt :: real where
  "big_dt = 10 ^ 200"

section \<open>The measurement buffers and the scheduler (Estimator.cpp)\<close>

text \<open>
  A timestamp is a \<^verbatim>\<open>double\<close>, modelled as a \<^typ>\<open>real\<close>. \<^verbatim>\<open>class Imu\<close> carries the time,
  the specific force and the angular rate of one inertial sample.
\<close>

datatype Imu = Imu (time: real) (acc: Vector3d) (gyr: Vector3d)

text \<open>
  Every buffer holds a \<^verbatim>\<open>std::map<double, Meas>\<close> in the member \<^verbatim>\<open>measMap_\<close>, which
  Estimator.cpp reads directly. It is modelled as the list of its entries in the order
  in which the map iterates them, which is ascending in the timestamp. An iterator of the
  map is the entry it points to, or \<open>None\<close> for \<^verbatim>\<open>end()\<close>.
\<close>

record 'a MapRingBuffer =
  measMap :: "(real \<times> 'a) list"
  itMeas :: "(real \<times> 'a) option"
  capacity :: nat

text \<open>
  \<^verbatim>\<open>measMap_.upper_bound(t)\<close>: the first entry, in the order of the map, whose timestamp is
  greater than \<open>t\<close>.
\<close>

definition upper_bound :: "(real \<times> 'a) list \<Rightarrow> real \<Rightarrow> (real \<times> 'a) option" where
  "upper_bound m t = find (\<lambda>e. t < fst e) m"

text \<open>
  Modelled from the spec: the methods of the buffer class are declared in a header that is
  not among the sources. The spec's contract of the Timed Measurement Buffer gives them:
  \<^verbatim>\<open>empty\<close>; \<^verbatim>\<open>getLastTime\<close> and \<^verbatim>\<open>getLastMeas\<close>, which read the newest entry and fail on
  an empty buffer (the result \<open>None\<close>: the C++ method then returns false and leaves the
  variable it was given as it is); \<^verbatim>\<open>clean\<close>, which removes every entry whose timestamp
  is at most the cutoff; and \<^verbatim>\<open>addMeas\<close>, which inserts an entry and drops the oldest one
  when the capacity is exceeded (an entry whose timestamp is already in the map is not
  inserted, as \<^verbatim>\<open>std::map::insert\<close> has it).
\<close>

definition empty_buf :: "'a MapRingBuffer \<Rightarrow> bool" where
  "empty_buf b = (measMap b = [])"

definition getLastTime :: "'a MapRingBuffer \<Rightarrow> real option" where
  "getLastTime b = (if measMap b = [] then None else Some (fst (last (measMap b))))"

definition getLastMeas :: "'a MapRingBuffer \<Rightarrow> 'a option" where
  "getLastMeas b = (if measMap b = [] then None else Some (snd (last (measMap b))))"

definition clean :: "real \<Rightarrow> 'a MapRingBuffer \<Rightarrow> 'a MapRingBuffer" where
  "clean t b = b \<lparr> measMap := filter (\<lambda>e. \<not> fst e \<le> t) (measMap b) \<rparr>"

fun map_insert :: "real \<Rightarrow> 'a \<Rightarrow> (real \<times> 'a) list \<Rightarrow> (real \<times> 'a) list" where
  "map_insert t x [] = [(t, x)]"
| "map_insert t x ((k, y) # m) =
     (if t < k then (t, x) # (k, y) # m
      else if t = k then (k, y) # m
      else (k, y) # map_insert t x m)"

definition addMeas :: "'a \<Rightarrow> real \<Rightarrow> 'a MapRingBuffer \<Rightarrow> 'a MapRingBuffer" where
  "addMeas meas t b =
     (let m = map_insert t meas (measMap b)
      in b \<lparr> measMap := (if length m > capacity b then tl m else m) \<rparr>)"

definition allocate :: "nat \<Rightarrow> 'a MapRingBuffer" where
  "allocate n = \<lparr> measMap = [], itMeas = None, capacity = n \<rparr>"

text \<open>
  Modelled from the spec: \<^verbatim>\<open>class StateEstimator\<close> (the Estimator Orchestrator of the
  spec) is declared in Estimator.h, which is not among the sources. By the spec it owns
  the cursor (\<^verbatim>\<open>getTime\<close>) and the initialisation flag; \<^verbatim>\<open>processImu\<close> integrates one step
  and advances the cursor by \<open>dt\<close>; \<^verbatim>\<open>processPCL\<close> performs the correction, which is out of
  scope, marks the estimator initialised and advances the cursor to the scan time. The
  model keeps the list of the calls made to these two entry points, oldest first, so that
  a theorem can say which calls a run of the scheduler made. The scan-info and the
  inertial sample handed to \<^verbatim>\<open>processPCL\<close> are \<open>None\<close> when the scheduler hands over a
  default-constructed object because the buffer it read was empty.
\<close>

datatype ('c, 'i) est_call =
    ProcessImu real Vector3d Vector3d
  | ProcessPCL real "Imu option" 'c "'i option" 'c

record ('c, 'i) StateEstimator =
  cursor :: real
  initialized :: bool
  calls :: "('c, 'i) est_call list"

definition getTime :: "('c, 'i) StateEstimator \<Rightarrow> real" where
  "getTime e = cursor e"

definition isInitialized :: "('c, 'i) StateEstimator \<Rightarrow> bool" where
  "isInitialized e = initialized e"

definition processImu ::
  "real \<Rightarrow> Vector3d \<Rightarrow> Vector3d \<Rightarrow> ('c, 'i) StateEstimator \<Rightarrow> ('c, 'i) StateEstimator" where
  "processImu dt' acc' gyr' e =
     e \<lparr> cursor := cursor e + dt', calls := calls e @ [ProcessImu dt' acc' gyr'] \<rparr>"

definition processPCL ::
  "real \<Rightarrow> Imu option \<Rightarrow> 'c \<Rightarrow> 'i option \<Rightarrow> 'c \<Rightarrow> ('c, 'i) StateEstimator \<Rightarrow> ('c, 'i) StateEstimator" where
  "processPCL scan_time' imu cloud cloudInfo outlier e =
     e \<lparr> cursor := scan_time', initialized := True,
         calls := calls e @ [ProcessPCL scan_time' imu cloud cloudInfo outlier] \<rparr>"

definition new_StateEstimator :: "('c, 'i) StateEstimator" where
  "new_StateEstimator = \<lparr> cursor = 0, initialized = False, calls = [] \<rparr>"

text \<open>
  The members of \<^verbatim>\<open>class LinsFusion\<close> that the scheduler reads and writes; a member's
  trailing underscore is dropped (\<open>imuBuf\<close> is \<^verbatim>\<open>imuBuf_\<close>). \<open>'c\<close> is the
  content of a point-cloud message and \<open>'i\<close> the content of a scan-info message. The
  members \<^verbatim>\<open>distortedPointCloud\<close> and \<^verbatim>\<open>outlierPointCloud\<close> are cleared and refilled from the
  selected messages before each use; the model passes the content of the messages on
  instead. \<^verbatim>\<open>duration_\<close>, a running mean of measured wall-clock time, is left out.
  \<open>published\<close> lists the scan times \<^verbatim>\<open>publishTopics\<close> was called with.
\<close>

record ('c, 'i) LinsFusion =
  imuBuf :: "Imu MapRingBuffer"
  pclBuf :: "'c MapRingBuffer"
  cloudInfoBuf :: "'i MapRingBuffer"
  outlierBuf :: "'c MapRingBuffer"
  estimator :: "('c, 'i) StateEstimator"
  scan_time :: real
  last_imu_time :: real
  last_scan_time :: real
  scan_counter :: nat
  published :: "real list"

text \<open>
  What the C++ leaves undefined: reading through the iterator \<^verbatim>\<open>end()\<close> of the map of one
  of the three scan streams, and reading through a message pointer that is null.
\<close>

datatype stream = Scan | Outlier | CloudInfo

datatype fault = EndDeref stream | NullDeref

text \<open>
  \<^verbatim>\<open>initialization\<close>: the four buffers are allocated and the estimator is created. The
  three time members have no value yet in the C++; every path of the scheduler writes
  them before it reads them, and they start at 0 here.
\<close>

definition initialization :: "('c, 'i) LinsFusion" where
  "initialization =
     \<lparr> imuBuf = allocate 500,
       pclBuf = allocate 3,
       cloudInfoBuf = allocate 3,
       outlierBuf = allocate 3,
       estimator = new_StateEstimator,
       scan_time = 0,
       last_imu_time = 0,
       last_scan_time = 0,
       scan_counter = 0,
       published = [] \<rparr>"

text \<open>\<^verbatim>\<open>processFirstPointCloud\<close>.\<close>

definition processFirstPointCloud :: "('c, 'i) LinsFusion \<Rightarrow> fault + ('c, 'i) LinsFusion" where
  "processFirstPointCloud s =
    (let s = (case getLastTime (pclBuf s) of Some t \<Rightarrow> s \<lparr> scan_time := t \<rparr> | None \<Rightarrow> s)
     in case getLastMeas (pclBuf s) of
          None \<Rightarrow> Inl NullDeref
        | Some pclMsg \<Rightarrow>
     (case getLastMeas (outlierBuf s) of
          None \<Rightarrow> Inl NullDeref
        | Some outlierMsg \<Rightarrow>
     (let cloudInfoMsg = getLastMeas (cloudInfoBuf s);
          imu = getLastMeas (imuBuf s);
          s = s \<lparr> estimator :=
                    processPCL (scan_time s) imu pclMsg cloudInfoMsg outlierMsg (estimator s) \<rparr>;
          s = s \<lparr> pclBuf := clean (getTime (estimator s)) (pclBuf s) \<rparr>;
          s = s \<lparr> cloudInfoBuf := clean (getTime (estimator s)) (cloudInfoBuf s) \<rparr>;
          s = s \<lparr> outlierBuf := clean (getTime (estimator s)) (outlierBuf s) \<rparr>
      in Inr s)))"

text \<open>
  The loop of \<^verbatim>\<open>processPointClouds\<close> that integrates the inertial samples up to the scan
  time. Each round looks up the first sample after the cursor; the loop ends when the
  cursor has reached the scan time or no such sample is left. The two facts below are
  what its termination rests on: the sample the loop selects lies after the cursor, and
  fewer entries lie after a later cursor.
\<close>

lemma upper_bound_Some:
  "upper_bound m t = Some e \<Longrightarrow> e \<in> set m \<and> t < fst e"
  by (auto simp: upper_bound_def find_Some_iff)

lemma filter_length_less:
  "x \<in> set m \<Longrightarrow> P x \<Longrightarrow> \<not> Q x \<Longrightarrow> (\<And>y. Q y \<Longrightarrow> P y) \<Longrightarrow>
   length (filter Q m) < length (filter P m)"
proof (induction m)
  case Nil
  then show ?case by simp
next
  case (Cons y m)
  have le: "length (filter Q m) \<le> length (filter P m)"
  proof -
    have "filter Q m = filter Q (filter P m)"
      using Cons.prems(4) by (auto intro: filter_cong)
    then show ?thesis by (metis length_filter_le)
  qed
  show ?case
  proof (cases "x = y")
    case True
    then show ?thesis using Cons.prems le by simp
  next
    case False
    then have "x \<in> set m" using Cons.prems(1) by simp
    then have "length (filter Q m) < length (filter P m)"
      using Cons.IH Cons.prems by blast
    then show ?thesis using Cons.prems(4) by auto
  qed
qed

lemma filter_length_mono:
  "(\<And>y. Q y \<Longrightarrow> P y) \<Longrightarrow> length (filter Q m) \<le> length (filter P m)"
proof -
  assume a: "\<And>y. Q y \<Longrightarrow> P y"
  have "filter Q m = filter Q (filter P m)"
    using a by (auto intro: filter_cong)
  then show ?thesis by (metis length_filter_le)
qed

definition drain_measure :: "('c, 'i) LinsFusion \<Rightarrow> nat" where
  "drain_measure s =
     length (filter (\<lambda>e. getTime (estimator s) < fst e) (measMap (imuBuf s)))
     + (if getTime (estimator s) < scan_time s then 1 else 0)"

function drainImu :: "('c, 'i) LinsFusion \<Rightarrow> ('c, 'i) LinsFusion" where
  "drainImu s =
     (if getTime (estimator s) < scan_time s then
        (let it = upper_bound (measMap (imuBuf s)) (getTime (estimator s));
             s1 = s \<lparr> imuBuf := (imuBuf s) \<lparr> itMeas := it \<rparr> \<rparr>
         in case it of
              None \<Rightarrow> s1
            | Some e \<Rightarrow>
                (let dt' = min (fst e) (scan_time s1) - getTime (estimator s1);
                     imu = snd e
                 in drainImu (s1 \<lparr> estimator := processImu dt' (acc imu) (gyr imu) (estimator s1) \<rparr>)))
      else s)"
  by pat_completeness auto
termination
proof (relation "measure drain_measure")
  show "wf (measure drain_measure)" by simp
next
  fix s :: "('c, 'i) LinsFusion" and it s1 e dt' imu
  assume lt: "getTime (estimator s) < scan_time s"
    and it: "it = upper_bound (measMap (imuBuf s)) (getTime (estimator s))"
    and s1: "s1 = s \<lparr> imuBuf := (imuBuf s) \<lparr> itMeas := it \<rparr> \<rparr>"
    and e: "it = Some e"
    and dt': "dt' = min (fst e) (scan_time s1) - getTime (estimator s1)"
    and imu: "imu = snd e"
  let ?c = "getTime (estimator s)"
  let ?m = "measMap (imuBuf s)"
  let ?s2 = "s1 \<lparr> estimator := processImu dt' (acc imu) (gyr imu) (estimator s1) \<rparr>"
  from it e have mem: "e \<in> set ?m" and after: "?c < fst e"
    using upper_bound_Some [of ?m ?c e] by simp_all
  have c2: "getTime (estimator ?s2) = min (fst e) (scan_time s)"
    by (simp add: s1 dt' getTime_def processImu_def)
  have m2: "measMap (imuBuf ?s2) = ?m" and st2: "scan_time ?s2 = scan_time s"
    by (simp_all add: s1)
  show "(?s2, s) \<in> measure drain_measure"
  proof (cases "fst e \<le> scan_time s")
    case True
    then have c: "getTime (estimator ?s2) = fst e" using c2 by simp
    have "length (filter (\<lambda>x. fst e < fst x) ?m) < length (filter (\<lambda>x. ?c < fst x) ?m)"
      by (rule filter_length_less [OF mem]) (use after in auto)
    then show ?thesis
      using lt unfolding in_measure drain_measure_def c m2 st2 by simp
  next
    case False
    then have c: "getTime (estimator ?s2) = scan_time s" using c2 by simp
    have "length (filter (\<lambda>x. scan_time s < fst x) ?m) \<le> length (filter (\<lambda>x. ?c < fst x) ?m)"
      by (rule filter_length_mono) (use lt in auto)
    then show ?thesis
      using lt unfolding in_measure drain_measure_def c m2 st2 by simp
  qed
qed

declare drainImu.simps [simp del]

lemma drainImu_stop:
  "\<not> getTime (estimator s) < scan_time s \<Longrightarrow> drainImu s = s"
  by (subst drainImu.simps) simp

lemma drainImu_end:
  "getTime (estimator s) < scan_time s \<Longrightarrow>
   upper_bound (measMap (imuBuf s)) (getTime (estimator s)) = None \<Longrightarrow>
   drainImu s = s \<lparr> imuBuf := (imuBuf s) \<lparr> itMeas := None \<rparr> \<rparr>"
  by (subst drainImu.simps) simp

lemma drainImu_step:
  "getTime (estimator s) < scan_time s \<Longrightarrow>
   upper_bound (measMap (imuBuf s)) (getTime (estimator s)) = Some e \<Longrightarrow>
   drainImu s =
     drainImu (s \<lparr> imuBuf := (imuBuf s) \<lparr> itMeas := Some e \<rparr>,
                  estimator := processImu (min (fst e) (scan_time s) - getTime (estimator s))
                                 (acc (snd e)) (gyr (snd e)) (estimator s) \<rparr>)"
  by (subst drainImu.simps) (simp add: Let_def)

lemma drainImu_frame:
  "pclBuf (drainImu s) = pclBuf s \<and> cloudInfoBuf (drainImu s) = cloudInfoBuf s
   \<and> outlierBuf (drainImu s) = outlierBuf s \<and> scan_time (drainImu s) = scan_time s
   \<and> measMap (imuBuf (drainImu s)) = measMap (imuBuf s)
   \<and> last_imu_time (drainImu s) = last_imu_time s
   \<and> last_scan_time (drainImu s) = last_scan_time s
   \<and> scan_counter (drainImu s) = scan_counter s
   \<and> published (drainImu s) = published s"
proof (induction s rule: drainImu.induct)
  case (1 s)
  show ?case
  proof (cases "getTime (estimator s) < scan_time s")
    case False
    then show ?thesis by (simp add: drainImu_stop)
  next
    case True
    show ?thesis
    proof (cases "upper_bound (measMap (imuBuf s)) (getTime (estimator s))")
      case None
      then show ?thesis using True by (simp add: drainImu_end)
    next
      case (Some e)
      show ?thesis
        using "1.IH" [OF True refl refl Some refl refl] Some
        by (simp add: drainImu_step [OF True Some])
    qed
  qed
qed

text \<open>
  \<^verbatim>\<open>processPointClouds\<close>. The result is \<open>Inl (EndDeref b)\<close> when the iterator it reads
  through on the stream \<open>b\<close> is \<^verbatim>\<open>end()\<close>; otherwise it is the boolean the C++ returns, with
  the members as the call leaves them.
\<close>

definition processPointClouds ::
  "('c, 'i) LinsFusion \<Rightarrow> fault + (bool \<times> ('c, 'i) LinsFusion)" where
  "processPointClouds s =
    (let it = upper_bound (measMap (pclBuf s)) (getTime (estimator s));
         s = s \<lparr> pclBuf := (pclBuf s) \<lparr> itMeas := it \<rparr> \<rparr>
     in case it of
          None \<Rightarrow> Inl (EndDeref Scan)
        | Some pcl \<Rightarrow>
     (let pclMsg = snd pcl;
          s = s \<lparr> scan_time := fst pcl \<rparr>;
          it = upper_bound (measMap (outlierBuf s)) (getTime (estimator s));
          s = s \<lparr> outlierBuf := (outlierBuf s) \<lparr> itMeas := it \<rparr> \<rparr>
      in case it of
           None \<Rightarrow> Inl (EndDeref Outlier)
         | Some outlier \<Rightarrow>
     (let outlierMsg = snd outlier;
          it = upper_bound (measMap (cloudInfoBuf s)) (getTime (estimator s));
          s = s \<lparr> cloudInfoBuf := (cloudInfoBuf s) \<lparr> itMeas := it \<rparr> \<rparr>
      in case it of
           None \<Rightarrow> Inl (EndDeref CloudInfo)
         | Some cloudInfo \<Rightarrow>
     (let cloudInfoMsg = snd cloudInfo;
          s = (case getLastTime (imuBuf s) of
                 Some t \<Rightarrow> s \<lparr> last_imu_time := t \<rparr>
               | None \<Rightarrow> s)
      in if last_imu_time s < scan_time s then Inr (False, s)
         else
           (let s = drainImu s;
                imu = getLastMeas (imuBuf s);
                s = s \<lparr> estimator :=
                          processPCL (scan_time s) imu pclMsg (Some cloudInfoMsg) outlierMsg
                            (estimator s) \<rparr>;
                s = s \<lparr> imuBuf := clean (getTime (estimator s)) (imuBuf s) \<rparr>;
                s = s \<lparr> pclBuf := clean (getTime (estimator s)) (pclBuf s) \<rparr>;
                s = s \<lparr> cloudInfoBuf := clean (getTime (estimator s)) (cloudInfoBuf s) \<rparr>;
                s = s \<lparr> outlierBuf := clean (getTime (estimator s)) (outlierBuf s) \<rparr>
            in Inr (True, s))))))"

lemma processPointClouds_shrinks:
  assumes "processPointClouds s = Inr (True, s')"
  shows "length (measMap (pclBuf s')) < length (measMap (pclBuf s))"
proof -
  obtain pcl where pcl: "upper_bound (measMap (pclBuf s)) (getTime (estimator s)) = Some pcl"
    using assms by (cases "upper_bound (measMap (pclBuf s)) (getTime (estimator s))")
      (simp_all add: processPointClouds_def)
  then have mem: "pcl \<in> set (measMap (pclBuf s))"
    using upper_bound_Some by blast
  have "measMap (pclBuf s') = filter (\<lambda>e. \<not> fst e \<le> fst pcl) (measMap (pclBuf s))"
    using assms pcl
    by (auto simp: processPointClouds_def Let_def drainImu_frame clean_def getTime_def
          processPCL_def split: option.splits if_splits)
  moreover have "length (filter (\<lambda>e. \<not> fst e \<le> fst pcl) (measMap (pclBuf s)))
                 < length (measMap (pclBuf s))"
    using mem by (intro length_filter_less [of pcl]) simp_all
  ultimately show ?thesis by simp
qed

text \<open>
  The loop of \<^verbatim>\<open>performStateEstimation\<close>, and the function itself. A round that consumed a
  scan counts it and publishes; a round that was not ready ends the loop.
\<close>

function scanLoop :: "('c, 'i) LinsFusion \<Rightarrow> fault + ('c, 'i) LinsFusion" where
  "scanLoop s =
     (if \<not> empty_buf (pclBuf s) \<and> getTime (estimator s) < last_scan_time s then
        (case processPointClouds s of
           Inl f \<Rightarrow> Inl f
         | Inr r \<Rightarrow>
             (if \<not> fst r then Inr (snd r)
              else scanLoop ((snd r) \<lparr> scan_counter := scan_counter (snd r) + 1,
                                      published := published (snd r) @ [scan_time (snd r)] \<rparr>)))
      else Inr s)"
  by pat_completeness auto
termination
proof (relation "measure (\<lambda>s. length (measMap (pclBuf s)))")
  show "wf (measure (\<lambda>s::('c, 'i) LinsFusion. length (measMap (pclBuf s))))" by simp
next
  fix s :: "('c, 'i) LinsFusion" and r
  assume "processPointClouds s = Inr r" and "\<not> \<not> fst r"
  then have "processPointClouds s = Inr (True, snd r)"
    by (cases r) simp
  then show "((snd r) \<lparr> scan_counter := scan_counter (snd r) + 1,
                        published := published (snd r) @ [scan_time (snd r)] \<rparr>, s)
             \<in> measure (\<lambda>s. length (measMap (pclBuf s)))"
    using processPointClouds_shrinks by simp
qed

declare scanLoop.simps [simp del]

definition performStateEstimation :: "('c, 'i) LinsFusion \<Rightarrow> fault + ('c, 'i) LinsFusion" where
  "performStateEstimation s =
     (if empty_buf (imuBuf s) \<or> empty_buf (pclBuf s) \<or> empty_buf (cloudInfoBuf s) \<or> empty_buf (outlierBuf s)
      then Inr s
      else if \<not> isInitialized (estimator s) then processFirstPointCloud s
      else
        (let s = (case getLastTime (pclBuf s) of
                    Some t \<Rightarrow> s \<lparr> last_scan_time := t \<rparr>
                  | None \<Rightarrow> s)
         in scanLoop s))"

text \<open>
  The subscriber callbacks. A message is given by its timestamp and its content; the
  inertial callback receives the sample as \<^verbatim>\<open>alignIMUtoVehicle\<close> has aligned it (the rotation
  it applies is not among the sources). \<open>run\<close> delivers a list of messages in the order
  of their arrival and stops at the first fault.
\<close>

datatype ('c, 'i) event =
    ImuMsg real Vector3d Vector3d
  | LaserCloudMsg real 'c
  | LaserCloudInfoMsg real 'i
  | OutlierCloudMsg real 'c

definition imuCallback ::
  "real \<Rightarrow> Vector3d \<Rightarrow> Vector3d \<Rightarrow> ('c, 'i) LinsFusion \<Rightarrow> fault + ('c, 'i) LinsFusion" where
  "imuCallback t acc_aligned gyr_aligned s =
     performStateEstimation (s \<lparr> imuBuf := addMeas (Imu t acc_aligned gyr_aligned) t (imuBuf s) \<rparr>)"

definition laserCloudCallback :: "real \<Rightarrow> 'c \<Rightarrow> ('c, 'i) LinsFusion \<Rightarrow> ('c, 'i) LinsFusion" where
  "laserCloudCallback t laserCloudMsg s = s \<lparr> pclBuf := addMeas laserCloudMsg t (pclBuf s) \<rparr>"

definition laserCloudInfoCallback :: "real \<Rightarrow> 'i \<Rightarrow> ('c, 'i) LinsFusion \<Rightarrow> ('c, 'i) LinsFusion" where
  "laserCloudInfoCallback t cloudInfoMsg s =
     s \<lparr> cloudInfoBuf := addMeas cloudInfoMsg t (cloudInfoBuf s) \<rparr>"

definition outlierCloudCallback :: "real \<Rightarrow> 'c \<Rightarrow> ('c, 'i) LinsFusion \<Rightarrow> ('c, 'i) LinsFusion" where
  "outlierCloudCallback t laserCloudMsg s =
     s \<lparr> outlierBuf := addMeas laserCloudMsg t (outlierBuf s) \<rparr>"

fun callback :: "('c, 'i) event \<Rightarrow> ('c, 'i) LinsFusion \<Rightarrow> fault + ('c, 'i) LinsFusion" where
  "callback (ImuMsg t a g) s = imuCallback t a g s"
| "callback (LaserCloudMsg t m) s = Inr (laserCloudCallback t m s)"
| "callback (LaserCloudInfoMsg t m) s = Inr (laserCloudInfoCallback t m s)"
| "callback (OutlierCloudMsg t m) s = Inr (outlierCloudCallback t m s)"

fun run :: "('c, 'i) event list \<Rightarrow> ('c, 'i) LinsFusion \<Rightarrow> fault + ('c, 'i) LinsFusion" where
  "run [] s = Inr s"
| "run (ev # evs) s = (case callback ev s of Inl f \<Rightarrow> Inl f | Inr s' \<Rightarrow> run evs s')"

text \<open>
  The entries of a map are in ascending order of distinct timestamps. \<open>scan_inv\<close> is what
  the loop of \<^verbatim>\<open>performStateEstimation\<close> keeps true of the scan buffer: its map is in
  order, and \<^verbatim>\<open>last_scan_time_\<close> is the time of its newest entry while it has one.
\<close>

definition map_sorted :: "(real \<times> 'a) list \<Rightarrow> bool" where
  "map_sorted m = sorted_wrt (<) (map fst m)"

definition scan_inv :: "('c, 'i) LinsFusion \<Rightarrow> bool" where
  "scan_inv s = (map_sorted (measMap (pclBuf s))
     \<and> (measMap (pclBuf s) = [] \<or> fst (last (measMap (pclBuf s))) = last_scan_time s))"

text \<open>
  Concrete states and message traces on which the scheduler is evaluated below: a state
  with given cursor, initialisation flag and buffer contents, and an inertial sample of a
  platform at rest.
\<close>

definition tracking_state ::
  "real \<Rightarrow> bool \<Rightarrow> (real \<times> Imu) list \<Rightarrow> (real \<times> nat) list \<Rightarrow> (real \<times> nat) list \<Rightarrow> (real \<times> nat) list
   \<Rightarrow> (nat, nat) LinsFusion" where
  "tracking_state c ini imus pcls infos outliers =
     initialization
       \<lparr> imuBuf := (allocate 500) \<lparr> measMap := imus \<rparr>,
         pclBuf := (allocate 3) \<lparr> measMap := pcls \<rparr>,
         cloudInfoBuf := (allocate 3) \<lparr> measMap := infos \<rparr>,
         outlierBuf := (allocate 3) \<lparr> measMap := outliers \<rparr>,
         estimator := new_StateEstimator \<lparr> cursor := c, initialized := ini \<rparr> \<rparr>"

definition sample :: "real \<Rightarrow> real \<times> Imu" where
  "sample t = (t, Imu t (Vector3d 0 0 9.8) (Vector3d 0 0 0))"

definition straddle_state :: "real \<Rightarrow> (nat, nat) LinsFusion" where
  "straddle_state c =
     tracking_state c True [sample 0.95, sample 1.05]
       [(1.0, 1), (1.2, 2)] [(1.0, 1), (1.2, 2)] [(1.0, 1), (1.2, 2)]"

definition first_scan_state :: "(nat, nat) LinsFusion" where
  "first_scan_state =
     tracking_state 0 False [sample 0.5, sample 0.9]
       [(0.8, 1), (1.0, 2)] [(0.8, 1), (1.0, 2)] [(0.8, 1), (1.0, 2)]"

definition late_outlier_trace :: "(nat, nat) event list" where
  "late_outlier_trace =
     [LaserCloudMsg 1.0 1, LaserCloudInfoMsg 1.0 1, OutlierCloudMsg 1.0 1,
      ImuMsg 1.0 (Vector3d 0 0 9.8) (Vector3d 0 0 0),
      ImuMsg 1.1 (Vector3d 0 0 9.8) (Vector3d 0 0 0),
      LaserCloudMsg 1.2 2, LaserCloudInfoMsg 1.2 2, OutlierCloudMsg 1.2 2,
      LaserCloudMsg 1.4 3, LaserCloudInfoMsg 1.4 3,
      ImuMsg 1.5 (Vector3d 0 0 9.8) (Vector3d 0 0 0)]"

definition late_info_trace :: "(nat, nat) event list" where
  "late_info_trace =
     [LaserCloudMsg 1.0 1, LaserCloudInfoMsg 1.0 1, OutlierCloudMsg 1.0 1,
      ImuMsg 1.0 (Vector3d 0 0 9.8) (Vector3d 0 0 0),
      ImuMsg 1.1 (Vector3d 0 0 9.8) (Vector3d 0 0 0),
      LaserCloudMsg 1.2 2, LaserCloudInfoMsg 1.2 2, OutlierCloudMsg 1.2 2,
      LaserCloudMsg 1.4 3, OutlierCloudMsg 1.4 3,
      ImuMsg 1.5 (Vector3d 0 0 9.8) (Vector3d 0 0 0)]"

text \<open>
  A trace in which the outlier cloud of the third scan has not arrived when an inertial
  sample older than that scan does: \<open>deferred_scan_prefix\<close> is the trace before that
  sample.
\<close>

definition deferred_scan_prefix :: "(nat, nat) event list" where
  "deferred_scan_prefix =
     [LaserCloudMsg 1.0 1, LaserCloudInfoMsg 1.0 1, OutlierCloudMsg 1.0 1,
      ImuMsg 1.0 (Vector3d 0 0 9.8) (Vector3d 0 0 0),
      ImuMsg 1.1 (Vector3d 0 0 9.8) (Vector3d 0 0 0),
      LaserCloudMsg 1.2 2, LaserCloudInfoMsg 1.2 2, OutlierCloudMsg 1.2 2,
      LaserCloudMsg 1.4 3, LaserCloudInfoMsg 1.4 3]"

definition deferred_scan_trace :: "(nat, nat) event list" where
  "deferred_scan_trace =
     deferred_scan_prefix @ [ImuMsg 1.3 (Vector3d 0 0 9.8) (Vector3d 0 0 0)]"

section \<open>Properties of the preintegration engine\<close>












lemma squaredNorm_qmul: "squaredNorm (qmul a b) = squaredNorm a * squaredNorm b"
  by (simp add: squaredNorm_def qmul_def algebra_simps)

lemma squaredNorm_normalize:
  "0 < squaredNorm q \<Longrightarrow> squaredNorm (normalize_q q) = 1"
proof -
  assume pos: "0 < squaredNorm q"
  define z where "z = squaredNorm q"
  have zpos: "0 < z" using pos by (simp add: z_def)
  have n: "normalize_q q = Quaterniond (qw q / sqrt z) (qx q / sqrt z) (qy q / sqrt z) (qz q / sqrt z)"
    using pos by (simp add: normalize_q_def Let_def z_def)
  have "squaredNorm (normalize_q q) = (qw q * qw q + qx q * qx q + qy q * qy q + qz q * qz q) / z"
    unfolding n using zpos by (simp add: squaredNorm_def add_divide_distrib)
  also have "\<dots> = z / z"
    by (simp add: z_def squaredNorm_def)
  finally show ?thesis using zpos by simp
qed



lemma squaredNorm_increment:
  "0 < squaredNorm (Quaterniond 1 x y z)"
proof -
  have "0 \<le> x * x" "0 \<le> y * y" "0 \<le> z * z" by simp_all
  then show ?thesis unfolding squaredNorm_def Quaterniond.sel by linarith
qed

lemma delta_q_propagate:
  "delta_q (propagate h a g s) =
     normalize_q (qmul (delta_q s)
       (Quaterniond 1
          (v0 (vsub (svmul 0.5 (vadd (gyr_0 s) g)) (linearized_bg s)) * h / 2)
          (v1 (vsub (svmul 0.5 (vadd (gyr_0 s) g)) (linearized_bg s)) * h / 2)
          (v2 (vsub (svmul 0.5 (vadd (gyr_0 s) g)) (linearized_bg s)) * h / 2)))"
  by (simp add: propagate_def midPointIntegration_def Let_def)

lemma jacobian_propagate:
  "jacobian (propagate h a g s) = mmul 15 (step_F h a g s) (jacobian s)"
  by (simp add: propagate_def midPointIntegration_def step_F_def Let_def)

lemma step_F_push_back:
  "step_F h a g (s\<lparr>dt_buf := x, acc_buf := y, gyr_buf := z\<rparr>) = step_F h a g s"
  by (simp add: step_F_def)

lemma jacobian_push_back:
  "jacobian (push_back h a g s) = mmul 15 (step_F h a g s) (jacobian s)"
  by (simp add: push_back_def jacobian_propagate step_F_push_back)

lemma delta_q_push_back:
  "delta_q (push_back h a g s) = delta_q (propagate h a g s)"
  by (simp add: push_back_def delta_q_propagate)

lemma unit_propagate:
  "0 < squaredNorm (delta_q s) \<Longrightarrow> squaredNorm (delta_q (propagate h a g s)) = 1"
  by (simp add: delta_q_propagate squaredNorm_normalize squaredNorm_qmul squaredNorm_increment)

lemma unit_apply_call:
  "squaredNorm (delta_q s) = 1 \<Longrightarrow> squaredNorm (delta_q (apply_call c s)) = 1"
  by (cases c) (simp_all add: unit_propagate delta_q_push_back setBa_def setBg_def)

lemma unit_apply_calls:
  "squaredNorm (delta_q s) = 1 \<Longrightarrow> squaredNorm (delta_q (apply_calls cs s)) = 1"
  by (induction cs arbitrary: s) (simp_all add: unit_apply_call)

lemma unit_constructed: "squaredNorm (delta_q (IntegrationBase a g ba bg)) = 1"
  by (simp add: IntegrationBase_def Quaterniond_Identity_def squaredNorm_def)






lemma covariance_apply_call: "covariance (apply_call c s) = covariance s"
  by (cases c)
     (simp_all add: push_back_def propagate_def midPointIntegration_def Let_def setBa_def setBg_def)


text \<open>
  Claim C1. One integration step (\<^verbatim>\<open>push_back\<close> or \<^verbatim>\<open>propagate\<close>) with step \<open>h\<close> and new sample
  \<open>(acc1, gyr1)\<close> on an engine \<open>s\<close>: the acceleration at the start of the step is the cached
  sample minus the accelerometer bias, rotated by the previous rotation delta; the
  rotation delta is multiplied from the right by the small-angle quaternion of the
  averaged angular rate minus the gyroscope bias (and then normalised); the acceleration
  at the end of the step is the new sample minus the bias, rotated by the advanced
  rotation delta; and with \<open>a_avg\<close> the mean of the two, the new position delta is
  \<open>p + h v + (h\<^sup>2 / 2) a_avg\<close> and the new velocity delta is \<open>v + h a_avg\<close>.
\<close>

theorem midpoint_step_formulas:
  "(let ba = linearized_ba s; bg = linearized_bg s;
        p = delta_p s; q = delta_q s; v = delta_v s;
        un_acc_0 = qrot q (vsub (acc_0 s) ba);
        un_gyr = vsub (svmul (1 / 2) (vadd (gyr_0 s) gyr1)) bg;
        q_new = qmul q (Quaterniond 1 (v0 un_gyr * h / 2) (v1 un_gyr * h / 2) (v2 un_gyr * h / 2));
        un_acc_1 = qrot q_new (vsub acc1 ba);
        a_avg = svmul (1 / 2) (vadd un_acc_0 un_acc_1)
    in delta_p (push_back h acc1 gyr1 s) = vadd (vadd p (svmul h v)) (svmul (1 / 2 * h\<^sup>2) a_avg)
     \<and> delta_v (push_back h acc1 gyr1 s) = vadd v (svmul h a_avg)
     \<and> delta_q (push_back h acc1 gyr1 s) = normalize_q q_new
     \<and> delta_p (propagate h acc1 gyr1 s) = vadd (vadd p (svmul h v)) (svmul (1 / 2 * h\<^sup>2) a_avg)
     \<and> delta_v (propagate h acc1 gyr1 s) = vadd v (svmul h a_avg)
     \<and> delta_q (propagate h acc1 gyr1 s) = normalize_q q_new)"
  by (simp add: push_back_def propagate_def midPointIntegration_def Let_def
        vadd_def svmul_def vmuls_def power2_eq_square mult_ac)

text \<open>
  Claim C4. The Jacobian of a new engine is the 15x15 identity. After any list of calls
  it is the identity multiplied from the left, step by step, by the transition matrix of
  each integration step, oldest first (a bias reset contributes no matrix). After two
  integration steps it is \<open>F\<^sub>2 (F\<^sub>1 I)\<close>.
\<close>

theorem jacobian_is_composition:
  "jacobian (IntegrationBase acc0 gyr0 ba bg) = Matrix_Identity 15
   \<and> jacobian (apply_calls cs (IntegrationBase acc0 gyr0 ba bg))
       = compose_left (transitions cs (IntegrationBase acc0 gyr0 ba bg)) (Matrix_Identity 15)
   \<and> jacobian (push_back h2 a2 g2 (push_back h1 a1 g1 (IntegrationBase acc0 gyr0 ba bg)))
       = mmul 15 (step_F h2 a2 g2 (push_back h1 a1 g1 (IntegrationBase acc0 gyr0 ba bg)))
           (mmul 15 (step_F h1 a1 g1 (IntegrationBase acc0 gyr0 ba bg)) (Matrix_Identity 15))"
proof -
  have seed: "jacobian (IntegrationBase acc0 gyr0 ba bg) = Matrix_Identity 15"
    by (simp add: IntegrationBase_def)
  have gen: "jacobian (apply_calls cs s) = compose_left (transitions cs s) (jacobian s)" for s
  proof (induction cs arbitrary: s)
    case Nil
    show ?case by (simp add: compose_left_def)
  next
    case (Cons c cs)
    show ?case
      by (cases c)
         (simp_all add: Cons.IH compose_left_def jacobian_push_back jacobian_propagate
            setBa_def setBg_def)
  qed
  show ?thesis
    by (simp add: seed gen [of "IntegrationBase acc0 gyr0 ba bg", unfolded seed] jacobian_push_back)
qed

text \<open>
  In exact arithmetic the rotation delta has norm 1 after an integration step on an
  engine that was constructed and then used through any list of calls: the increment
  quaternion has a squared norm of at least 1, the squared norm of a product is the
  product of the squared norms, and \<^verbatim>\<open>normalize()\<close> divides by the norm.
\<close>

lemma unit_norm_exact_arithmetic:
  "norm_q (delta_q (push_back h a1 w1 (apply_calls cs (IntegrationBase acc0 gyr0 ba bg)))) = 1
   \<and> norm_q (delta_q (propagate h a1 w1 (apply_calls cs (IntegrationBase acc0 gyr0 ba bg)))) = 1"
proof -
  have "squaredNorm (delta_q (apply_calls cs (IntegrationBase acc0 gyr0 ba bg))) = 1"
    by (rule unit_apply_calls) (rule unit_constructed)
  then have "squaredNorm (delta_q (propagate h a1 w1
               (apply_calls cs (IntegrationBase acc0 gyr0 ba bg)))) = 1"
    by (simp add: unit_propagate)
  then show ?thesis
    by (simp add: norm_q_def delta_q_push_back)
qed

subsection \<open>The rotation delta on doubles\<close>

text \<open>
  A finite result of an operation on doubles has finite operands and is their exact
  result; a finite squared norm belongs to four finite coefficients.
\<close>

lemma overflow_threshold_gt_2: "2 < overflow_threshold"
  by (simp add: overflow_threshold_def)

lemma to_double_small: "\<bar>v\<bar> \<le> 2 \<Longrightarrow> to_double v = Fin v"
  using overflow_threshold_gt_2 by (simp add: to_double_def abs_le_iff)

lemma to_double_Fin: "to_double v = Fin u \<Longrightarrow> u = v"
  by (simp add: to_double_def inf_of_sign_def split: if_splits)

lemma d_mul_Fin: "d_mul x y = Fin v \<Longrightarrow> \<exists>a b. x = Fin a \<and> y = Fin b \<and> v = a * b"
  by (cases x; cases y) (auto simp: inf_of_sign_def dest: to_double_Fin split: if_splits)

lemma d_add_Fin: "d_add x y = Fin v \<Longrightarrow> \<exists>a b. x = Fin a \<and> y = Fin b \<and> v = a + b"
  by (cases x; cases y) (auto dest: to_double_Fin)

lemma d_squaredNorm_Fin:
  assumes "d_squaredNorm q = Fin z"
  shows "\<exists>w x y t. q = DQuaterniond (Fin w) (Fin x) (Fin y) (Fin t)
           \<and> z = x * x + y * y + t * t + w * w"
proof -
  obtain a b c d where q: "q = DQuaterniond a b c d" by (cases q)
  from assms obtain s3 p4 where
    1: "d_add (d_add (d_mul b b) (d_mul c c)) (d_mul d d) = Fin s3"
    and 2: "d_mul a a = Fin p4" and 3: "z = s3 + p4"
    unfolding d_squaredNorm_def q DQuaterniond.sel by (blast dest: d_add_Fin)
  from 1 obtain s2 p3 where
    4: "d_add (d_mul b b) (d_mul c c) = Fin s2" and 5: "d_mul d d = Fin p3" and 6: "s3 = s2 + p3"
    by (blast dest: d_add_Fin)
  from 4 obtain p1 p2 where
    7: "d_mul b b = Fin p1" and 8: "d_mul c c = Fin p2" and 9: "s2 = p1 + p2"
    by (blast dest: d_add_Fin)
  from 2 obtain w where w: "a = Fin w" "p4 = w * w" by (blast dest: d_mul_Fin)
  from 7 obtain x where x: "b = Fin x" "p1 = x * x" by (blast dest: d_mul_Fin)
  from 8 obtain y where y: "c = Fin y" "p2 = y * y" by (blast dest: d_mul_Fin)
  from 5 obtain t where t: "d = Fin t" "p3 = t * t" by (blast dest: d_mul_Fin)
  show ?thesis
    using q w x y t 3 6 9 by simp
qed

lemma DBL_MIN_pos: "0 < DBL_MIN"
  by (simp add: DBL_MIN_def)

lemma unit_sum_norm:
  fixes p q s t :: real
  assumes "q * q + s * s + t * t + p * p = 1"
  shows "d_norm (DQuaterniond (Fin p) (Fin q) (Fin s) (Fin t)) = Fin 1"
proof -
  have nn: "0 \<le> p * p" "0 \<le> q * q" "0 \<le> s * s" "0 \<le> t * t" by simp_all
  have e1: "to_double (q * q) = Fin (q * q)"
    by (rule to_double_small) (use assms nn in linarith)
  have e2: "to_double (s * s) = Fin (s * s)"
    by (rule to_double_small) (use assms nn in linarith)
  have e3: "to_double (t * t) = Fin (t * t)"
    by (rule to_double_small) (use assms nn in linarith)
  have e4: "to_double (p * p) = Fin (p * p)"
    by (rule to_double_small) (use assms nn in linarith)
  have e5: "to_double (q * q + s * s) = Fin (q * q + s * s)"
    by (rule to_double_small) (use assms nn in linarith)
  have e6: "to_double (q * q + s * s + t * t) = Fin (q * q + s * s + t * t)"
    by (rule to_double_small) (use assms nn in linarith)
  have e7: "to_double (q * q + s * s + t * t + p * p) = Fin 1"
    unfolding assms by (rule to_double_small) simp
  have "d_squaredNorm (DQuaterniond (Fin p) (Fin q) (Fin s) (Fin t)) = Fin 1"
    unfolding d_squaredNorm_def DQuaterniond.sel d_mul.simps e1 e2 e3 e4 d_add.simps e5 e6 e7
    by (rule refl)
  then show ?thesis by (simp add: d_norm_def)
qed

lemma d_sub_Fin: "d_sub x y = Fin v \<Longrightarrow> \<exists>a b. x = Fin a \<and> y = Fin b \<and> v = a - b"
  unfolding d_sub_def by (cases y) (auto dest!: d_add_Fin)

lemma d_div_Fin: "d_div x (Fin c) = Fin v \<Longrightarrow> c \<noteq> 0 \<Longrightarrow> \<exists>a. x = Fin a \<and> v = a / c"
  by (cases x) (auto simp: inf_of_sign_def dest: to_double_Fin split: if_splits)

text \<open>The step length \<open>1e200\<close> and its half are finite doubles; the square of the half is not.\<close>

lemma big_dt_finite: "to_double big_dt = Fin big_dt"
  by (simp add: to_double_def overflow_threshold_def big_dt_def)

lemma big_dt_half_finite: "to_double (big_dt / 2) = Fin (big_dt / 2)"
  by (simp add: to_double_def overflow_threshold_def big_dt_def)

lemma big_dt_square_overflows: "to_double (big_dt / 2 * (big_dt / 2)) = PInf"
  by (simp add: to_double_def overflow_threshold_def big_dt_def)

text \<open>
  Where the squared norm of \<^verbatim>\<open>result_delta_q\<close> comes out finite, nothing has overflowed on
  the way to it, and the computation on doubles gives the coefficients that the
  computation on real numbers gives; with a positive squared norm, so does
  \<^verbatim>\<open>normalize()\<close>. There the rotation delta of \<open>propagate\<close> above is the one computed on
  doubles.
\<close>

lemma d_result_exact:
  assumes "d_squaredNorm (d_result_delta_q (Fin h) (dvec g0) (dvec g1) (dvec bg) (dquat q)) = Fin z"
  shows "d_result_delta_q (Fin h) (dvec g0) (dvec g1) (dvec bg) (dquat q)
     = dquat (qmul q (Quaterniond 1
          (v0 (vsub (svmul 0.5 (vadd g0 g1)) bg) * h / 2)
          (v1 (vsub (svmul 0.5 (vadd g0 g1)) bg) * h / 2)
          (v2 (vsub (svmul 0.5 (vadd g0 g1)) bg) * h / 2)))"
proof -
  let ?d = "d_result_delta_q (Fin h) (dvec g0) (dvec g1) (dvec bg) (dquat q)"
  let ?r = "qmul q (Quaterniond 1
          (v0 (vsub (svmul 0.5 (vadd g0 g1)) bg) * h / 2)
          (v1 (vsub (svmul 0.5 (vadd g0 g1)) bg) * h / 2)
          (v2 (vsub (svmul 0.5 (vadd g0 g1)) bg) * h / 2))"
  from d_squaredNorm_Fin [OF assms] obtain w x y t where
    r: "?d = DQuaterniond (Fin w) (Fin x) (Fin y) (Fin t)"
    by blast
  from r have c: "dqw ?d = Fin w" "dqx ?d = Fin x" "dqy ?d = Fin y" "dqz ?d = Fin t"
    by simp_all
  have w: "w = qw ?r"
    using c(1)
    unfolding d_result_delta_q_def d_qmul_def Let_def dvec_def dquat_def
      DQuaterniond.sel DVector3d.sel
    by (auto dest!: d_sub_Fin d_add_Fin d_mul_Fin d_div_Fin to_double_Fin
          simp: qmul_def vsub_def svmul_def vadd_def)
  have x: "x = qx ?r"
    using c(2)
    unfolding d_result_delta_q_def d_qmul_def Let_def dvec_def dquat_def
      DQuaterniond.sel DVector3d.sel
    by (auto dest!: d_sub_Fin d_add_Fin d_mul_Fin d_div_Fin to_double_Fin
          simp: qmul_def vsub_def svmul_def vadd_def)
  have y: "y = qy ?r"
    using c(3)
    unfolding d_result_delta_q_def d_qmul_def Let_def dvec_def dquat_def
      DQuaterniond.sel DVector3d.sel
    by (auto dest!: d_sub_Fin d_add_Fin d_mul_Fin d_div_Fin to_double_Fin
          simp: qmul_def vsub_def svmul_def vadd_def)
  have t: "t = qz ?r"
    using c(4)
    unfolding d_result_delta_q_def d_qmul_def Let_def dvec_def dquat_def
      DQuaterniond.sel DVector3d.sel
    by (auto dest!: d_sub_Fin d_add_Fin d_mul_Fin d_div_Fin to_double_Fin
          simp: qmul_def vsub_def svmul_def vadd_def)
  show ?thesis
    unfolding r by (simp add: dquat_def w x y t)
qed

lemma d_normalize_exact:
  assumes "d_squaredNorm (dquat q) = Fin z" and "0 < z"
  shows "d_normalize (dquat q) = dquat (normalize_q q)"
proof -
  from d_squaredNorm_Fin [OF assms(1)] have z: "z = squaredNorm q"
    by (auto simp: dquat_def squaredNorm_def)
  define r where "r = sqrt z"
  have r: "0 < r" using assms(2) by (simp add: r_def)
  have nn: "0 \<le> qw q * qw q" "0 \<le> qx q * qx q" "0 \<le> qy q * qy q" "0 \<le> qz q * qz q"
    by simp_all
  have small: "\<bar>v / r\<bar> \<le> 2" if "v * v \<le> z" for v
  proof -
    have "r * r = z" using assms(2) by (simp add: r_def)
    then have "v\<^sup>2 \<le> r\<^sup>2" using that by (simp add: power2_eq_square)
    then have "\<bar>v\<bar> \<le> \<bar>r\<bar>" by (simp add: abs_le_square_iff)
    then have "\<bar>v / r\<bar> \<le> 1" using r by simp
    then show ?thesis by simp
  qed
  have le: "qw q * qw q \<le> z" "qx q * qx q \<le> z" "qy q * qy q \<le> z" "qz q * qz q \<le> z"
    using nn unfolding z squaredNorm_def by linarith+
  have "d_normalize (dquat q)
        = DQuaterniond (Fin (qw q / r)) (Fin (qx q / r)) (Fin (qy q / r)) (Fin (qz q / r))"
    using assms r small [OF le(1)] small [OF le(2)] small [OF le(3)] small [OF le(4)]
    by (simp add: d_normalize_def Let_def dquat_def r_def [symmetric] to_double_small)
  also have "\<dots> = dquat (normalize_q q)"
    using assms(2) by (simp add: dquat_def normalize_q_def Let_def z [symmetric] r_def)
  finally show ?thesis .
qed

lemma d_propagate_delta_q_exact:
  assumes "d_squaredNorm (d_result_delta_q (Fin h) (dvec (gyr_0 s)) (dvec g1)
             (dvec (linearized_bg s)) (dquat (delta_q s))) = Fin z"
      and "0 < z"
  shows "d_propagate_delta_q (Fin h) (dvec (gyr_0 s)) (dvec g1) (dvec (linearized_bg s))
           (dquat (delta_q s))
         = dquat (delta_q (propagate h a1 g1 s))"
proof -
  note e = d_result_exact [OF assms(1)]
  have "d_propagate_delta_q (Fin h) (dvec (gyr_0 s)) (dvec g1) (dvec (linearized_bg s))
           (dquat (delta_q s))
        = d_normalize (dquat (qmul (delta_q s) (Quaterniond 1
          (v0 (vsub (svmul 0.5 (vadd (gyr_0 s) g1)) (linearized_bg s)) * h / 2)
          (v1 (vsub (svmul 0.5 (vadd (gyr_0 s) g1)) (linearized_bg s)) * h / 2)
          (v2 (vsub (svmul 0.5 (vadd (gyr_0 s) g1)) (linearized_bg s)) * h / 2))))"
    unfolding d_propagate_delta_q_def e by (rule refl)
  also have "\<dots> = dquat (normalize_q (qmul (delta_q s) (Quaterniond 1
          (v0 (vsub (svmul 0.5 (vadd (gyr_0 s) g1)) (linearized_bg s)) * h / 2)
          (v1 (vsub (svmul 0.5 (vadd (gyr_0 s) g1)) (linearized_bg s)) * h / 2)
          (v2 (vsub (svmul 0.5 (vadd (gyr_0 s) g1)) (linearized_bg s)) * h / 2))))"
    by (rule d_normalize_exact [OF _ assms(2)]) (use assms(1) e in simp)
  also have "\<dots> = dquat (delta_q (propagate h a1 g1 s))"
    by (simp add: delta_q_propagate)
  finally show ?thesis .
qed

text \<open>
  With the step length and the coordinates of the angular rates and of the bias within
  \<open>rate_bound\<close>, and a former rotation delta of squared norm at most 4, every operation on
  the way to \<^verbatim>\<open>result_delta_q\<close> and to its squared norm has a result below the overflow
  threshold; both are then what the computation on real numbers gives.
\<close>

lemma rate_bound_ge_1: "1 \<le> rate_bound"
  by (simp add: rate_bound_def)

lemma rate_bound_limits:
  "2 * rate_bound < overflow_threshold"
  "2 * (rate_bound * rate_bound) < overflow_threshold"
  "8 * (rate_bound * rate_bound) < overflow_threshold"
  "256 * ((rate_bound * rate_bound) * (rate_bound * rate_bound)) < overflow_threshold"
  by (simp_all add: rate_bound_def overflow_threshold_def)

lemma to_double_le: "\<bar>v\<bar> \<le> b \<Longrightarrow> b < overflow_threshold \<Longrightarrow> to_double v = Fin v"
  by (auto simp: to_double_def abs_le_iff)

lemma abs_mult_le:
  fixes a b :: real
  shows "\<bar>a\<bar> \<le> A \<Longrightarrow> \<bar>b\<bar> \<le> B \<Longrightarrow> \<bar>a * b\<bar> \<le> A * B"
  unfolding abs_mult by (rule mult_mono) (auto intro: order_trans [OF abs_ge_zero])

lemma un_gyr_bounded:
  assumes "\<bar>a\<bar> \<le> rate_bound" "\<bar>b\<bar> \<le> rate_bound" "\<bar>c\<bar> \<le> rate_bound"
  shows "d_sub (d_mul (Fin 0.5) (d_add (Fin a) (Fin b))) (Fin c) = Fin (0.5 * (a + b) - c)"
    and "\<bar>0.5 * (a + b) - c\<bar> \<le> 2 * rate_bound"
proof -
  have 1: "\<bar>a + b\<bar> \<le> 2 * rate_bound" using assms by linarith
  have h: "0.5 * (a + b) = (a + b) / 2" by simp
  have k: "0 \<le> rate_bound" using assms(1) by linarith
  have "\<bar>(a + b) / 2\<bar> = \<bar>a + b\<bar> / 2" by simp
  have half: "\<bar>(a + b) / 2\<bar> \<le> rate_bound" using 1 by simp
  have 2: "\<bar>0.5 * (a + b)\<bar> \<le> 2 * rate_bound" unfolding h using half k by linarith
  have "\<bar>(a + b) / 2 - c\<bar> \<le> \<bar>(a + b) / 2\<bar> + \<bar>c\<bar>" by (rule abs_triangle_ineq4)
  then show 3: "\<bar>0.5 * (a + b) - c\<bar> \<le> 2 * rate_bound"
    unfolding h using half assms(3) by linarith
  have 4: "\<bar>0.5 * (a + b) + - c\<bar> \<le> 2 * rate_bound" using 3 by simp
  show "d_sub (d_mul (Fin 0.5) (d_add (Fin a) (Fin b))) (Fin c) = Fin (0.5 * (a + b) - c)"
    unfolding d_sub_def d_add.simps d_neg.simps d_mul.simps
      to_double_le [OF 1 rate_bound_limits(1)] to_double_le [OF 2 rate_bound_limits(1)]
      to_double_le [OF 4 rate_bound_limits(1)]
    by simp
qed

lemma theta_bounded:
  assumes "\<bar>u\<bar> \<le> 2 * rate_bound" "\<bar>h\<bar> \<le> rate_bound"
  shows "d_div (d_mul (Fin u) (Fin h)) (Fin 2) = Fin (u * h / 2)"
    and "\<bar>u * h / 2\<bar> \<le> rate_bound * rate_bound"
proof -
  have 1: "\<bar>u * h\<bar> \<le> 2 * (rate_bound * rate_bound)"
    using abs_mult_le [OF assms] by simp
  then show 2: "\<bar>u * h / 2\<bar> \<le> rate_bound * rate_bound" by simp
  have 3: "\<bar>u * h / 2\<bar> \<le> 2 * (rate_bound * rate_bound)" using 1 by simp
  show "d_div (d_mul (Fin u) (Fin h)) (Fin 2) = Fin (u * h / 2)"
    unfolding d_mul.simps to_double_le [OF 1 rate_bound_limits(2)]
    by (simp add: to_double_le [OF 3 rate_bound_limits(2)])
qed

lemma row_bounded_plus:
  assumes a: "\<bar>a1\<bar> \<le> 2" "\<bar>a2\<bar> \<le> 2" "\<bar>a3\<bar> \<le> 2" "\<bar>a4\<bar> \<le> 2"
      and b: "\<bar>b1\<bar> \<le> rate_bound * rate_bound" "\<bar>b2\<bar> \<le> rate_bound * rate_bound"
             "\<bar>b3\<bar> \<le> rate_bound * rate_bound" "\<bar>b4\<bar> \<le> rate_bound * rate_bound"
  shows "d_sub (d_add (d_add (d_mul (Fin a1) (Fin b1)) (d_mul (Fin a2) (Fin b2)))
                      (d_mul (Fin a3) (Fin b3))) (d_mul (Fin a4) (Fin b4))
         = Fin (a1 * b1 + a2 * b2 + a3 * b3 - a4 * b4)"
    and "\<bar>a1 * b1 + a2 * b2 + a3 * b3 - a4 * b4\<bar> \<le> 8 * (rate_bound * rate_bound)"
proof -
  have p: "\<bar>a1 * b1\<bar> \<le> 2 * (rate_bound * rate_bound)" "\<bar>a2 * b2\<bar> \<le> 2 * (rate_bound * rate_bound)"
    "\<bar>a3 * b3\<bar> \<le> 2 * (rate_bound * rate_bound)" "\<bar>a4 * b4\<bar> \<le> 2 * (rate_bound * rate_bound)"
    using abs_mult_le [OF a(1) b(1)] abs_mult_le [OF a(2) b(2)]
      abs_mult_le [OF a(3) b(3)] abs_mult_le [OF a(4) b(4)] by simp_all
  have s2: "\<bar>a1 * b1 + a2 * b2\<bar> \<le> 8 * (rate_bound * rate_bound)" using p by linarith
  have s3: "\<bar>a1 * b1 + a2 * b2 + a3 * b3\<bar> \<le> 8 * (rate_bound * rate_bound)" using p by linarith
  show s4: "\<bar>a1 * b1 + a2 * b2 + a3 * b3 - a4 * b4\<bar> \<le> 8 * (rate_bound * rate_bound)"
    using p by linarith
  have s4': "\<bar>a1 * b1 + a2 * b2 + a3 * b3 + - (a4 * b4)\<bar> \<le> 8 * (rate_bound * rate_bound)"
    using s4 by simp
  have p8: "\<bar>a1 * b1\<bar> \<le> 8 * (rate_bound * rate_bound)" "\<bar>a2 * b2\<bar> \<le> 8 * (rate_bound * rate_bound)"
    "\<bar>a3 * b3\<bar> \<le> 8 * (rate_bound * rate_bound)" "\<bar>a4 * b4\<bar> \<le> 8 * (rate_bound * rate_bound)"
    using p by linarith+
  note l = rate_bound_limits(3)
  show "d_sub (d_add (d_add (d_mul (Fin a1) (Fin b1)) (d_mul (Fin a2) (Fin b2)))
                      (d_mul (Fin a3) (Fin b3))) (d_mul (Fin a4) (Fin b4))
         = Fin (a1 * b1 + a2 * b2 + a3 * b3 - a4 * b4)"
    unfolding d_sub_def d_mul.simps
      to_double_le [OF p8(1) l] to_double_le [OF p8(2) l]
      to_double_le [OF p8(3) l] to_double_le [OF p8(4) l]
      d_add.simps d_neg.simps to_double_le [OF s2 l] to_double_le [OF s3 l]
      to_double_le [OF s4' l]
    by simp
qed

lemma row_bounded_minus:
  assumes a: "\<bar>a1\<bar> \<le> 2" "\<bar>a2\<bar> \<le> 2" "\<bar>a3\<bar> \<le> 2" "\<bar>a4\<bar> \<le> 2"
      and b: "\<bar>b1\<bar> \<le> rate_bound * rate_bound" "\<bar>b2\<bar> \<le> rate_bound * rate_bound"
             "\<bar>b3\<bar> \<le> rate_bound * rate_bound" "\<bar>b4\<bar> \<le> rate_bound * rate_bound"
  shows "d_sub (d_sub (d_sub (d_mul (Fin a1) (Fin b1)) (d_mul (Fin a2) (Fin b2)))
                      (d_mul (Fin a3) (Fin b3))) (d_mul (Fin a4) (Fin b4))
         = Fin (a1 * b1 - a2 * b2 - a3 * b3 - a4 * b4)"
    and "\<bar>a1 * b1 - a2 * b2 - a3 * b3 - a4 * b4\<bar> \<le> 8 * (rate_bound * rate_bound)"
proof -
  have p: "\<bar>a1 * b1\<bar> \<le> 2 * (rate_bound * rate_bound)" "\<bar>a2 * b2\<bar> \<le> 2 * (rate_bound * rate_bound)"
    "\<bar>a3 * b3\<bar> \<le> 2 * (rate_bound * rate_bound)" "\<bar>a4 * b4\<bar> \<le> 2 * (rate_bound * rate_bound)"
    using abs_mult_le [OF a(1) b(1)] abs_mult_le [OF a(2) b(2)]
      abs_mult_le [OF a(3) b(3)] abs_mult_le [OF a(4) b(4)] by simp_all
  have s2: "\<bar>a1 * b1 + - (a2 * b2)\<bar> \<le> 8 * (rate_bound * rate_bound)" using p by linarith
  have s3: "\<bar>a1 * b1 + - (a2 * b2) + - (a3 * b3)\<bar> \<le> 8 * (rate_bound * rate_bound)"
    using p by linarith
  show s4: "\<bar>a1 * b1 - a2 * b2 - a3 * b3 - a4 * b4\<bar> \<le> 8 * (rate_bound * rate_bound)"
    using p by linarith
  have s4': "\<bar>a1 * b1 + - (a2 * b2) + - (a3 * b3) + - (a4 * b4)\<bar> \<le> 8 * (rate_bound * rate_bound)"
    using s4 by simp
  have p8: "\<bar>a1 * b1\<bar> \<le> 8 * (rate_bound * rate_bound)" "\<bar>a2 * b2\<bar> \<le> 8 * (rate_bound * rate_bound)"
    "\<bar>a3 * b3\<bar> \<le> 8 * (rate_bound * rate_bound)" "\<bar>a4 * b4\<bar> \<le> 8 * (rate_bound * rate_bound)"
    using p by linarith+
  note l = rate_bound_limits(3)
  show "d_sub (d_sub (d_sub (d_mul (Fin a1) (Fin b1)) (d_mul (Fin a2) (Fin b2)))
                      (d_mul (Fin a3) (Fin b3))) (d_mul (Fin a4) (Fin b4))
         = Fin (a1 * b1 - a2 * b2 - a3 * b3 - a4 * b4)"
    unfolding d_sub_def d_mul.simps
      to_double_le [OF p8(1) l] to_double_le [OF p8(2) l]
      to_double_le [OF p8(3) l] to_double_le [OF p8(4) l]
      d_add.simps d_neg.simps to_double_le [OF s2 l] to_double_le [OF s3 l]
      to_double_le [OF s4' l]
    by simp
qed

lemma squaredNorm_bounded:
  assumes "\<bar>w\<bar> \<le> 8 * (rate_bound * rate_bound)" "\<bar>x\<bar> \<le> 8 * (rate_bound * rate_bound)"
          "\<bar>y\<bar> \<le> 8 * (rate_bound * rate_bound)" "\<bar>t\<bar> \<le> 8 * (rate_bound * rate_bound)"
  shows "d_squaredNorm (DQuaterniond (Fin w) (Fin x) (Fin y) (Fin t))
         = Fin (x * x + y * y + t * t + w * w)"
proof -
  let ?B = "256 * ((rate_bound * rate_bound) * (rate_bound * rate_bound))"
  have sq: "\<bar>v * v\<bar> \<le> 64 * ((rate_bound * rate_bound) * (rate_bound * rate_bound))"
    if "\<bar>v\<bar> \<le> 8 * (rate_bound * rate_bound)" for v
    using abs_mult_le [OF that that] by simp
  note q = sq [OF assms(1)] sq [OF assms(2)] sq [OF assms(3)] sq [OF assms(4)]
  have p: "\<bar>w * w\<bar> \<le> ?B" "\<bar>x * x\<bar> \<le> ?B" "\<bar>y * y\<bar> \<le> ?B" "\<bar>t * t\<bar> \<le> ?B"
    using q by linarith+
  have s2: "\<bar>x * x + y * y\<bar> \<le> ?B" using q by linarith
  have s3: "\<bar>x * x + y * y + t * t\<bar> \<le> ?B" using q by linarith
  have s4: "\<bar>x * x + y * y + t * t + w * w\<bar> \<le> ?B" using q by linarith
  note l = rate_bound_limits(4)
  show ?thesis
    unfolding d_squaredNorm_def DQuaterniond.sel d_mul.simps
      to_double_le [OF p(1) l] to_double_le [OF p(2) l]
      to_double_le [OF p(3) l] to_double_le [OF p(4) l]
      d_add.simps to_double_le [OF s2 l] to_double_le [OF s3 l] to_double_le [OF s4 l]
    by (rule refl)
qed

lemma coefficient_le_2:
  fixes c :: real
  assumes "c * c \<le> 4"
  shows "\<bar>c\<bar> \<le> 2"
proof -
  have "c\<^sup>2 \<le> 2\<^sup>2" using assms by (simp add: power2_eq_square)
  then have "\<bar>c\<bar> \<le> \<bar>2 :: real\<bar>" by (simp only: abs_le_square_iff)
  then show ?thesis by simp
qed

lemma coefficients_le_2:
  assumes "squaredNorm q \<le> 4"
  shows "\<bar>qw q\<bar> \<le> 2" "\<bar>qx q\<bar> \<le> 2" "\<bar>qy q\<bar> \<le> 2" "\<bar>qz q\<bar> \<le> 2"
proof -
  have nn: "0 \<le> qw q * qw q" "0 \<le> qx q * qx q" "0 \<le> qy q * qy q" "0 \<le> qz q * qz q"
    by simp_all
  have "qw q * qw q \<le> 4" "qx q * qx q \<le> 4" "qy q * qy q \<le> 4" "qz q * qz q \<le> 4"
    using assms nn unfolding squaredNorm_def by linarith+
  then show "\<bar>qw q\<bar> \<le> 2" "\<bar>qx q\<bar> \<le> 2" "\<bar>qy q\<bar> \<le> 2" "\<bar>qz q\<bar> \<le> 2"
    by (simp_all add: coefficient_le_2)
qed

lemma d_result_bounded:
  assumes h: "\<bar>h\<bar> \<le> rate_bound"
      and g0: "vec_within rate_bound g0" and g1: "vec_within rate_bound g1"
      and bg: "vec_within rate_bound bg"
      and q: "squaredNorm q \<le> 4"
  shows "d_result_delta_q (Fin h) (dvec g0) (dvec g1) (dvec bg) (dquat q)
     = dquat (qmul q (Quaterniond 1
          (v0 (vsub (svmul 0.5 (vadd g0 g1)) bg) * h / 2)
          (v1 (vsub (svmul 0.5 (vadd g0 g1)) bg) * h / 2)
          (v2 (vsub (svmul 0.5 (vadd g0 g1)) bg) * h / 2)))"
    and "d_squaredNorm (d_result_delta_q (Fin h) (dvec g0) (dvec g1) (dvec bg) (dquat q))
     = Fin (squaredNorm (qmul q (Quaterniond 1
          (v0 (vsub (svmul 0.5 (vadd g0 g1)) bg) * h / 2)
          (v1 (vsub (svmul 0.5 (vadd g0 g1)) bg) * h / 2)
          (v2 (vsub (svmul 0.5 (vadd g0 g1)) bg) * h / 2))))"
proof -
  define u0 where "u0 = 0.5 * (v0 g0 + v0 g1) - v0 bg"
  define u1 where "u1 = 0.5 * (v1 g0 + v1 g1) - v1 bg"
  define u2 where "u2 = 0.5 * (v2 g0 + v2 g1) - v2 bg"
  define t0 where "t0 = u0 * h / 2"
  define t1 where "t1 = u1 * h / 2"
  define t2 where "t2 = u2 * h / 2"
  have un: "vsub (svmul 0.5 (vadd g0 g1)) bg = Vector3d u0 u1 u2"
    by (simp add: vsub_def svmul_def vadd_def u0_def u1_def u2_def)
  have b0: "\<bar>v0 g0\<bar> \<le> rate_bound" "\<bar>v0 g1\<bar> \<le> rate_bound" "\<bar>v0 bg\<bar> \<le> rate_bound"
    and b1: "\<bar>v1 g0\<bar> \<le> rate_bound" "\<bar>v1 g1\<bar> \<le> rate_bound" "\<bar>v1 bg\<bar> \<le> rate_bound"
    and b2: "\<bar>v2 g0\<bar> \<le> rate_bound" "\<bar>v2 g1\<bar> \<le> rate_bound" "\<bar>v2 bg\<bar> \<le> rate_bound"
    using g0 g1 bg by (simp_all add: vec_within_def)
  note e0 = un_gyr_bounded [OF b0, folded u0_def]
  note e1 = un_gyr_bounded [OF b1, folded u1_def]
  note e2 = un_gyr_bounded [OF b2, folded u2_def]
  note f0 = theta_bounded [OF e0(2) h, folded t0_def]
  note f1 = theta_bounded [OF e1(2) h, folded t1_def]
  note f2 = theta_bounded [OF e2(2) h, folded t2_def]
  note c = coefficients_le_2 [OF q]
  have one: "\<bar>1 :: real\<bar> \<le> rate_bound * rate_bound"
    using rate_bound_ge_1 mult_mono [of 1 rate_bound 1 rate_bound] by simp
  note rw = row_bounded_minus [OF c(1) c(2) c(3) c(4) one f0(2) f1(2) f2(2)]
  note rx = row_bounded_plus [OF c(1) c(2) c(3) c(4) f0(2) one f2(2) f1(2)]
  note ry = row_bounded_plus [OF c(1) c(3) c(4) c(2) f1(2) one f0(2) f2(2)]
  note rz = row_bounded_plus [OF c(1) c(4) c(2) c(3) f2(2) one f1(2) f0(2)]
  have d: "d_result_delta_q (Fin h) (dvec g0) (dvec g1) (dvec bg) (dquat q)
     = DQuaterniond
         (Fin (qw q * 1 - qx q * t0 - qy q * t1 - qz q * t2))
         (Fin (qw q * t0 + qx q * 1 + qy q * t2 - qz q * t1))
         (Fin (qw q * t1 + qy q * 1 + qz q * t0 - qx q * t2))
         (Fin (qw q * t2 + qz q * 1 + qx q * t1 - qy q * t0))"
    apply (simp only: d_result_delta_q_def Let_def dvec_def dquat_def d_qmul_def
      DQuaterniond.sel DVector3d.sel Vector3d.sel Quaterniond.sel)
    apply (simp only: e0(1) e1(1) e2(1))
    apply (simp only: f0(1) f1(1) f2(1))
    apply (simp only: rw(1) rx(1) ry(1) rz(1))
    done
  have r: "qmul q (Quaterniond 1 t0 t1 t2)
     = Quaterniond (qw q * 1 - qx q * t0 - qy q * t1 - qz q * t2)
         (qw q * t0 + qx q * 1 + qy q * t2 - qz q * t1)
         (qw q * t1 + qy q * 1 + qz q * t0 - qx q * t2)
         (qw q * t2 + qz q * 1 + qx q * t1 - qy q * t0)"
    unfolding qmul_def Quaterniond.sel by (rule refl)
  show res: "d_result_delta_q (Fin h) (dvec g0) (dvec g1) (dvec bg) (dquat q)
     = dquat (qmul q (Quaterniond 1
          (v0 (vsub (svmul 0.5 (vadd g0 g1)) bg) * h / 2)
          (v1 (vsub (svmul 0.5 (vadd g0 g1)) bg) * h / 2)
          (v2 (vsub (svmul 0.5 (vadd g0 g1)) bg) * h / 2)))"
    apply (simp only: d)
    apply (simp only: un Vector3d.sel t0_def [symmetric] t1_def [symmetric] t2_def [symmetric] r)
    apply (simp only: dquat_def Quaterniond.sel)
    done
  have "d_squaredNorm (d_result_delta_q (Fin h) (dvec g0) (dvec g1) (dvec bg) (dquat q))
     = Fin (squaredNorm (qmul q (Quaterniond 1 t0 t1 t2)))"
    apply (simp only: d)
    apply (simp only: squaredNorm_bounded [OF rw(2) rx(2) ry(2) rz(2)] r squaredNorm_def
      Quaterniond.sel)
    apply simp
    done
  then show "d_squaredNorm (d_result_delta_q (Fin h) (dvec g0) (dvec g1) (dvec bg) (dquat q))
     = Fin (squaredNorm (qmul q (Quaterniond 1
          (v0 (vsub (svmul 0.5 (vadd g0 g1)) bg) * h / 2)
          (v1 (vsub (svmul 0.5 (vadd g0 g1)) bg) * h / 2)
          (v2 (vsub (svmul 0.5 (vadd g0 g1)) bg) * h / 2))))"
    unfolding un Vector3d.sel t0_def [symmetric] t1_def [symmetric] t2_def [symmetric]
    by assumption
qed

lemma squaredNorm_increment_ge_1: "1 \<le> squaredNorm (Quaterniond 1 x y z)"
proof -
  have "0 \<le> x * x" "0 \<le> y * y" "0 \<le> z * z" by simp_all
  then show ?thesis unfolding squaredNorm_def Quaterniond.sel by linarith
qed

lemma squaredNorm_advanced_ge:
  assumes "1 / 4 \<le> squaredNorm q"
  shows "1 / 4 \<le> squaredNorm (qmul q (Quaterniond 1 x y z))"
proof -
  have nn: "0 \<le> squaredNorm q" using assms by linarith
  have "squaredNorm q * 1 \<le> squaredNorm q * squaredNorm (Quaterniond 1 x y z)"
    by (rule mult_left_mono) (rule squaredNorm_increment_ge_1, rule nn)
  then have "squaredNorm q \<le> squaredNorm (qmul q (Quaterniond 1 x y z))"
    by (simp only: squaredNorm_qmul mult_1_right)
  then show ?thesis using assms by linarith
qed

lemma DBL_MIN_le_quarter: "DBL_MIN \<le> 1 / 4"
  by (simp add: DBL_MIN_def)

text \<open>
  \<^verbatim>\<open>normalize()\<close> on a quaternion whose squared norm is a finite double, not below
  \<open>DBL_MIN\<close>, leaves a quaternion of norm 1.
\<close>

lemma d_norm_propagate_unit:
  "d_squaredNorm (d_result_delta_q dt' gyr_0' gyr_1' bg' delta_q') = Fin z \<and> DBL_MIN \<le> z
   \<longrightarrow> d_norm (d_propagate_delta_q dt' gyr_0' gyr_1' bg' delta_q') = Fin 1"
proof
  assume a: "d_squaredNorm (d_result_delta_q dt' gyr_0' gyr_1' bg' delta_q') = Fin z \<and> DBL_MIN \<le> z"
  define q' where "q' = d_result_delta_q dt' gyr_0' gyr_1' bg' delta_q'"
  from a have sq: "d_squaredNorm q' = Fin z" and zpos: "0 < z"
    using DBL_MIN_pos by (simp_all add: q'_def)
  from d_squaredNorm_Fin [OF sq] obtain w x y t where
    q: "q' = DQuaterniond (Fin w) (Fin x) (Fin y) (Fin t)"
    and z: "z = x * x + y * y + t * t + w * w"
    by blast
  define r where "r = sqrt z"
  have r: "0 < r" "r * r = z" using zpos by (simp_all add: r_def)
  have sum: "(x / r) * (x / r) + (y / r) * (y / r) + (t / r) * (t / r) + (w / r) * (w / r) = 1"
  proof -
    have "(x / r) * (x / r) + (y / r) * (y / r) + (t / r) * (t / r) + (w / r) * (w / r)
          = (x * x + y * y + t * t + w * w) / (r * r)"
      by (simp add: add_divide_distrib)
    also have "\<dots> = 1" using r zpos z by simp
    finally show ?thesis .
  qed
  have small: "\<bar>v / r\<bar> \<le> 2" if "v * v \<le> z" for v
  proof -
    have "v\<^sup>2 \<le> r\<^sup>2" using that r by (simp add: power2_eq_square)
    then have "\<bar>v\<bar> \<le> \<bar>r\<bar>" by (simp add: abs_le_square_iff)
    then have "\<bar>v / r\<bar> \<le> 1" using r(1) by simp
    then show ?thesis by simp
  qed
  have nn: "0 \<le> w * w" "0 \<le> x * x" "0 \<le> y * y" "0 \<le> t * t" by simp_all
  have le: "w * w \<le> z" "x * x \<le> z" "y * y \<le> z" "t * t \<le> z"
    using z nn by linarith+
  have n: "d_normalize q' = DQuaterniond (Fin (w / r)) (Fin (x / r)) (Fin (y / r)) (Fin (t / r))"
    using sq zpos r(1) small [OF le(1)] small [OF le(2)] small [OF le(3)] small [OF le(4)]
    by (simp add: d_normalize_def Let_def q r_def [symmetric] to_double_small)
  show "d_norm (d_propagate_delta_q dt' gyr_0' gyr_1' bg' delta_q') = Fin 1"
    unfolding d_propagate_delta_q_def q'_def [symmetric] n
    by (rule unit_sum_norm) (use sum in simp)
qed

text \<open>
  Claim C5, as the code has it. Let the advanced rotation delta \<^verbatim>\<open>result_delta_q\<close> of an
  integration step have a squared norm that is a finite double and not below \<open>DBL_MIN\<close>:
  nothing has overflowed on the way to it, no operand was NaN or an infinity, and the
  squared norm is neither zero nor subnormal. Then the rotation delta that \<^verbatim>\<open>propagate\<close>
  leaves in the engine has norm 1. This holds for every step length, every pair of
  angular rates, every bias and every former rotation delta, finite or not. The bound is
  \<open>DBL_MIN\<close> rather than 0 to keep the statement away from underflow, which the doubles
  of this theory do not represent. The condition is met, and the norm is 1 after the
  step, whenever the step length and the coordinates of the two angular rates and of
  the bias are at most \<open>2^100\<close> in magnitude and the former rotation delta has a norm
  between 1/2 and 2, as the constructor and every such step leave it.
\<close>

theorem rotation_delta_unit_norm_if_finite:
  "(d_squaredNorm (d_result_delta_q dt' gyr_0' gyr_1' bg' delta_q') = Fin z \<and> DBL_MIN \<le> z
    \<longrightarrow> d_norm (d_propagate_delta_q dt' gyr_0' gyr_1' bg' delta_q') = Fin 1)
   \<and> (\<bar>h\<bar> \<le> rate_bound \<and> vec_within rate_bound ga \<and> vec_within rate_bound gb
        \<and> vec_within rate_bound bg \<and> 1 / 4 \<le> squaredNorm q \<and> squaredNorm q \<le> 4
    \<longrightarrow> (\<exists>z. d_squaredNorm (d_result_delta_q (Fin h) (dvec ga) (dvec gb) (dvec bg) (dquat q))
                = Fin z \<and> DBL_MIN \<le> z)
       \<and> d_norm (d_propagate_delta_q (Fin h) (dvec ga) (dvec gb) (dvec bg) (dquat q)) = Fin 1)"
proof (intro conjI impI)
  assume "d_squaredNorm (d_result_delta_q dt' gyr_0' gyr_1' bg' delta_q') = Fin z \<and> DBL_MIN \<le> z"
  then show "d_norm (d_propagate_delta_q dt' gyr_0' gyr_1' bg' delta_q') = Fin 1"
    using d_norm_propagate_unit by blast
next
  assume b: "\<bar>h\<bar> \<le> rate_bound \<and> vec_within rate_bound ga \<and> vec_within rate_bound gb
        \<and> vec_within rate_bound bg \<and> 1 / 4 \<le> squaredNorm q \<and> squaredNorm q \<le> 4"
  then have sq: "d_squaredNorm (d_result_delta_q (Fin h) (dvec ga) (dvec gb) (dvec bg) (dquat q))
     = Fin (squaredNorm (qmul q (Quaterniond 1
          (v0 (vsub (svmul 0.5 (vadd ga gb)) bg) * h / 2)
          (v1 (vsub (svmul 0.5 (vadd ga gb)) bg) * h / 2)
          (v2 (vsub (svmul 0.5 (vadd ga gb)) bg) * h / 2))))"
    by (intro d_result_bounded(2)) simp_all
  from b have ge: "DBL_MIN \<le> squaredNorm (qmul q (Quaterniond 1
          (v0 (vsub (svmul 0.5 (vadd ga gb)) bg) * h / 2)
          (v1 (vsub (svmul 0.5 (vadd ga gb)) bg) * h / 2)
          (v2 (vsub (svmul 0.5 (vadd ga gb)) bg) * h / 2)))"
    using squaredNorm_advanced_ge DBL_MIN_le_quarter by (blast intro: order_trans)
  from sq ge
  show "\<exists>z. d_squaredNorm (d_result_delta_q (Fin h) (dvec ga) (dvec gb) (dvec bg) (dquat q))
                = Fin z \<and> DBL_MIN \<le> z"
    by blast
  from sq ge
  show "d_norm (d_propagate_delta_q (Fin h) (dvec ga) (dvec gb) (dvec bg) (dquat q)) = Fin 1"
    using d_norm_propagate_unit by blast
qed

text \<open>
  The hypotheses hold on a step of 0.01 s from the identity rotation with an angular
  rate of 0.1 rad/s about the x axis: the squared norm of \<^verbatim>\<open>result_delta_q\<close> is 1.00000025.
\<close>

theorem rotation_delta_unit_norm_if_finite_witness:
  "d_squaredNorm (d_result_delta_q (Fin 0.01)
       (dvec (Vector3d 0.1 0 0)) (dvec (Vector3d 0.1 0 0))
       (dvec (Vector3d 0 0 0)) (dquat (Quaterniond 1 0 0 0)))
     = Fin 1.00000025
   \<and> DBL_MIN \<le> 1.00000025
   \<and> \<bar>0.01\<bar> \<le> rate_bound
   \<and> vec_within rate_bound (Vector3d 0.1 0 0)
   \<and> vec_within rate_bound (Vector3d 0 0 0)
   \<and> 1 / 4 \<le> squaredNorm (Quaterniond 1 0 0 0)
   \<and> squaredNorm (Quaterniond 1 0 0 0) \<le> 4
   \<and> d_norm (d_propagate_delta_q (Fin 0.01)
       (dvec (Vector3d 0.1 0 0)) (dvec (Vector3d 0.1 0 0))
       (dvec (Vector3d 0 0 0)) (dquat (Quaterniond 1 0 0 0)))
     = Fin 1"
proof -
  have q: "d_result_delta_q (Fin 0.01)
       (dvec (Vector3d 0.1 0 0)) (dvec (Vector3d 0.1 0 0))
       (dvec (Vector3d 0 0 0)) (dquat (Quaterniond 1 0 0 0))
     = DQuaterniond (Fin 1) (Fin 0.0005) (Fin 0) (Fin 0)"
    by (simp add: d_result_delta_q_def d_qmul_def d_sub_def Let_def to_double_small
          dvec_def dquat_def)
  have h: "d_squaredNorm (d_result_delta_q (Fin 0.01)
       (dvec (Vector3d 0.1 0 0)) (dvec (Vector3d 0.1 0 0))
       (dvec (Vector3d 0 0 0)) (dquat (Quaterniond 1 0 0 0)))
     = Fin 1.00000025"
    unfolding q by (simp add: d_squaredNorm_def to_double_small)
  have m: "DBL_MIN \<le> 1.00000025"
    by (simp add: DBL_MIN_def)
  have b: "\<bar>0.01\<bar> \<le> rate_bound" "vec_within rate_bound (Vector3d 0.1 0 0)"
    "vec_within rate_bound (Vector3d 0 0 0)"
    using rate_bound_ge_1 by (simp_all add: vec_within_def)
  have u: "1 / 4 \<le> squaredNorm (Quaterniond 1 0 0 0)" "squaredNorm (Quaterniond 1 0 0 0) \<le> 4"
    by (simp_all add: squaredNorm_def)
  note inst = rotation_delta_unit_norm_if_finite [where dt' = "Fin 0.01"
       and gyr_0' = "dvec (Vector3d 0.1 0 0)" and gyr_1' = "dvec (Vector3d 0.1 0 0)"
       and bg' = "dvec (Vector3d 0 0 0)" and delta_q' = "dquat (Quaterniond 1 0 0 0)"
       and z = "1.00000025" and h = "0.01" and ga = "Vector3d 0.1 0 0"
       and gb = "Vector3d 0.1 0 0" and bg = "Vector3d 0 0 0" and q = "Quaterniond 1 0 0 0"]
  from inst h m
  have n: "d_norm (d_propagate_delta_q (Fin 0.01)
       (dvec (Vector3d 0.1 0 0)) (dvec (Vector3d 0.1 0 0))
       (dvec (Vector3d 0 0 0)) (dquat (Quaterniond 1 0 0 0))) = Fin 1"
    by blast
  from h m b u n show ?thesis by blast
qed

text \<open>
  Claim C5 as stated fails: the class has no test on the step length or on the samples,
  and the norm is not 1 after every call. With a step length of \<open>1e200\<close> and an angular
  rate of 1 rad/s about the x axis, from the identity rotation, \<^verbatim>\<open>result_delta_q\<close> is
  \<open>(1, 5e199, 0, 0)\<close>; its squared norm overflows to \<open>+inf\<close>, which is positive,
  \<^verbatim>\<open>normalize()\<close> divides the four coefficients by \<open>sqrt(+inf) = +inf\<close>, and the engine is
  left with the quaternion \<open>(0, 0, 0, 0)\<close> of norm 0. With NaN as one coordinate of the
  angular rate, all four coefficients are NaN, \<^verbatim>\<open>z > 0\<close> is false, \<^verbatim>\<open>normalize()\<close> leaves
  them, and the norm is NaN.
\<close>

theorem rotation_delta_degenerate_after_overflow:
  "d_propagate_delta_q (Fin (10 ^ 200))
       (DVector3d (Fin 1) (Fin 0) (Fin 0)) (DVector3d (Fin 1) (Fin 0) (Fin 0))
       (DVector3d (Fin 0) (Fin 0) (Fin 0)) (DQuaterniond (Fin 1) (Fin 0) (Fin 0) (Fin 0))
     = DQuaterniond (Fin 0) (Fin 0) (Fin 0) (Fin 0)
   \<and> d_norm (d_propagate_delta_q (Fin (10 ^ 200))
       (DVector3d (Fin 1) (Fin 0) (Fin 0)) (DVector3d (Fin 1) (Fin 0) (Fin 0))
       (DVector3d (Fin 0) (Fin 0) (Fin 0)) (DQuaterniond (Fin 1) (Fin 0) (Fin 0) (Fin 0)))
     = Fin 0
   \<and> d_norm (d_propagate_delta_q (Fin 0.01)
       (DVector3d (Fin 0.1) (Fin 0) (Fin 0)) (DVector3d NaN (Fin 0) (Fin 0))
       (DVector3d (Fin 0) (Fin 0) (Fin 0)) (DQuaterniond (Fin 1) (Fin 0) (Fin 0) (Fin 0)))
     = NaN"
proof -
  have q: "d_result_delta_q (Fin big_dt)
       (DVector3d (Fin 1) (Fin 0) (Fin 0)) (DVector3d (Fin 1) (Fin 0) (Fin 0))
       (DVector3d (Fin 0) (Fin 0) (Fin 0)) (DQuaterniond (Fin 1) (Fin 0) (Fin 0) (Fin 0))
     = DQuaterniond (Fin 1) (Fin (big_dt / 2)) (Fin 0) (Fin 0)"
    by (simp add: d_result_delta_q_def d_qmul_def d_sub_def Let_def to_double_small
          big_dt_finite big_dt_half_finite)
  have z: "d_squaredNorm (DQuaterniond (Fin 1) (Fin (big_dt / 2)) (Fin 0) (Fin 0)) = PInf"
    unfolding d_squaredNorm_def DQuaterniond.sel d_mul.simps big_dt_square_overflows
    by (simp add: to_double_small)
  have n: "d_normalize (DQuaterniond (Fin 1) (Fin (big_dt / 2)) (Fin 0) (Fin 0))
           = DQuaterniond (Fin 0) (Fin 0) (Fin 0) (Fin 0)"
    unfolding d_normalize_def Let_def z by simp
  have z0: "d_norm (DQuaterniond (Fin 0) (Fin 0) (Fin 0) (Fin 0)) = Fin 0"
    by (simp add: d_norm_def d_squaredNorm_def to_double_small)
  have qn: "d_result_delta_q (Fin 0.01)
       (DVector3d (Fin 0.1) (Fin 0) (Fin 0)) (DVector3d NaN (Fin 0) (Fin 0))
       (DVector3d (Fin 0) (Fin 0) (Fin 0)) (DQuaterniond (Fin 1) (Fin 0) (Fin 0) (Fin 0))
     = DQuaterniond NaN NaN NaN NaN"
    by (simp add: d_result_delta_q_def d_qmul_def d_sub_def Let_def to_double_small)
  have zn: "d_squaredNorm (DQuaterniond NaN NaN NaN NaN) = NaN"
    by (simp add: d_squaredNorm_def)
  have nn: "d_norm (d_normalize (DQuaterniond NaN NaN NaN NaN)) = NaN"
    unfolding d_normalize_def Let_def zn by (simp add: d_norm_def zn)
  show ?thesis
    unfolding big_dt_def [symmetric] d_propagate_delta_q_def q n qn by (simp add: z0 nn)
qed

text \<open>
  Claim C6, as the code has it. No call of the engine writes the covariance: an
  integration step leaves it as it was, and on an engine that was constructed and then
  used through any list of calls it is still the zero matrix of the constructor. Only
  the Jacobian is advanced.
\<close>

theorem covariance_stays_zero:
  "covariance (IntegrationBase acc0 gyr0 ba bg) = Matrix_Zero
   \<and> covariance (push_back h a1 w1 s) = covariance s
   \<and> covariance (propagate h a1 w1 s) = covariance s
   \<and> covariance (apply_calls cs (IntegrationBase acc0 gyr0 ba bg)) = Matrix_Zero"
proof -
  have "covariance (apply_calls cs s) = covariance s" for s
    by (induction cs arbitrary: s) (simp_all add: covariance_apply_call)
  then show ?thesis
    using covariance_apply_call [of "Push_back h a1 w1" s]
      covariance_apply_call [of "Propagate h a1 w1" s]
    by (simp add: IntegrationBase_def)
qed

text \<open>
  Claim C6 as stated fails: after integrating a sample of 10 ms with a rotation rate, the
  covariance is what it was at construction, the zero matrix.
\<close>

theorem covariance_not_advanced:
  "covariance (push_back 0.01 (Vector3d 0 0 9.8) (Vector3d 0.1 0 0)
      (IntegrationBase (Vector3d 0 0 9.8) (Vector3d 0 0 0) Vector3d_Zero Vector3d_Zero))
   = covariance (IntegrationBase (Vector3d 0 0 9.8) (Vector3d 0 0 0) Vector3d_Zero Vector3d_Zero)
   \<and> covariance (push_back 0.01 (Vector3d 0 0 9.8) (Vector3d 0.1 0 0)
      (IntegrationBase (Vector3d 0 0 9.8) (Vector3d 0 0 0) Vector3d_Zero Vector3d_Zero))
   = Matrix_Zero"
  by (simp add: push_back_def propagate_def midPointIntegration_def Let_def IntegrationBase_def)

text \<open>
  Claim C7. An integration step leaves both stored biases as they were. \<^verbatim>\<open>setBa\<close> and
  \<^verbatim>\<open>setBg\<close> store the new bias and change nothing else: writing the old bias back gives
  the engine before the call, and in particular the three deltas, the Jacobian and the
  elapsed time are unchanged.
\<close>

theorem bias_frame:
  "linearized_ba (push_back h a1 w1 s) = linearized_ba s
   \<and> linearized_bg (push_back h a1 w1 s) = linearized_bg s
   \<and> linearized_ba (propagate h a1 w1 s) = linearized_ba s
   \<and> linearized_bg (propagate h a1 w1 s) = linearized_bg s
   \<and> linearized_ba (setBa b s) = b
   \<and> (setBa b s) \<lparr> linearized_ba := linearized_ba s \<rparr> = s
   \<and> delta_p (setBa b s) = delta_p s \<and> delta_q (setBa b s) = delta_q s
   \<and> delta_v (setBa b s) = delta_v s \<and> jacobian (setBa b s) = jacobian s
   \<and> sum_dt (setBa b s) = sum_dt s
   \<and> linearized_bg (setBg b s) = b
   \<and> (setBg b s) \<lparr> linearized_bg := linearized_bg s \<rparr> = s
   \<and> delta_p (setBg b s) = delta_p s \<and> delta_q (setBg b s) = delta_q s
   \<and> delta_v (setBg b s) = delta_v s \<and> jacobian (setBg b s) = jacobian s
   \<and> sum_dt (setBg b s) = sum_dt s"
  by (simp add: push_back_def propagate_def midPointIntegration_def Let_def setBa_def setBg_def)



section \<open>Properties of the scheduler\<close>

lemmas sched_defs = imuCallback_def laserCloudCallback_def laserCloudInfoCallback_def
  outlierCloudCallback_def performStateEstimation_def processFirstPointCloud_def
  processPointClouds_def initialization_def allocate_def new_StateEstimator_def
  addMeas_def clean_def getLastTime_def getLastMeas_def empty_buf_def upper_bound_def
  getTime_def isInitialized_def processImu_def processPCL_def Let_def
  scanLoop.simps drainImu.simps

lemma find_filter_same:
  "(\<And>x. P x \<Longrightarrow> Q x) \<Longrightarrow> find P (filter Q xs) = find P xs"
  by (induction xs) auto

lemma upper_bound_clean:
  "upper_bound (measMap (clean t b)) t = upper_bound (measMap b) t"
proof -
  have "find (\<lambda>e. t < fst e) (filter (\<lambda>e. \<not> fst e \<le> t) (measMap b))
        = find (\<lambda>e. t < fst e) (measMap b)"
    by (rule find_filter_same) simp
  then show ?thesis by (simp add: upper_bound_def clean_def)
qed

lemma processPointClouds_False:
  assumes "upper_bound (measMap (pclBuf s)) (getTime (estimator s)) = Some scan"
      and "upper_bound (measMap (outlierBuf s)) (getTime (estimator s)) = Some outlier"
      and "upper_bound (measMap (cloudInfoBuf s)) (getTime (estimator s)) = Some info"
      and "getLastTime (imuBuf s) = Some t_imu"
      and "t_imu < fst scan"
  shows "processPointClouds s =
     Inr (False, s \<lparr> pclBuf := (pclBuf s) \<lparr> itMeas := Some scan \<rparr>,
                     scan_time := fst scan,
                     outlierBuf := (outlierBuf s) \<lparr> itMeas := Some outlier \<rparr>,
                     cloudInfoBuf := (cloudInfoBuf s) \<lparr> itMeas := Some info \<rparr>,
                     last_imu_time := t_imu \<rparr>)"
  using assms by (simp add: processPointClouds_def Let_def)

lemma processPointClouds_True:
  assumes "processPointClouds s = Inr (True, s')"
  shows "\<exists>scan. upper_bound (measMap (pclBuf s)) (getTime (estimator s)) = Some scan
          \<and> scan_time s' = fst scan
          \<and> getTime (estimator s') = fst scan
          \<and> measMap (imuBuf s') = filter (\<lambda>e. \<not> fst e \<le> fst scan) (measMap (imuBuf s))"
  using assms
  by (auto simp: processPointClouds_def Let_def drainImu_frame clean_def getTime_def
        processPCL_def split: option.splits if_splits)

lemma upper_bound_last:
  "m \<noteq> [] \<Longrightarrow> t < fst (last m) \<Longrightarrow> upper_bound m t \<noteq> None"
proof -
  assume "m \<noteq> []" and "t < fst (last m)"
  then have "\<exists>e \<in> set m. t < fst e"
    using last_in_set by blast
  then show ?thesis
    by (auto simp: upper_bound_def find_None_iff)
qed

text \<open>
  The test of the inertial coverage (line 222) comes after the three lookups of
  \<^verbatim>\<open>processPointClouds\<close>. Where all three succeed, that is where a scan, an outlier
  cloud and a scan-info entry lie after the cursor, the test is reached, and if the
  newest inertial sample is older than that scan, \<^verbatim>\<open>processPointClouds\<close> returns false;
  the estimator is untouched (no call of \<^verbatim>\<open>processImu\<close> or \<^verbatim>\<open>processPCL\<close>, the cursor
  where it was) and the four maps hold what they held. \<^verbatim>\<open>performStateEstimation\<close> on an
  initialised estimator then returns with the same estimator and the same maps.
\<close>

lemma guard_defers_scan:
  assumes "upper_bound (measMap (pclBuf s)) (getTime (estimator s)) = Some scan"
      and "upper_bound (measMap (outlierBuf s)) (getTime (estimator s)) = Some outlier"
      and "upper_bound (measMap (cloudInfoBuf s)) (getTime (estimator s)) = Some info"
      and "getLastTime (imuBuf s) = Some t_imu"
      and "t_imu < fst scan"
  shows "(\<exists>s'. processPointClouds s = Inr (False, s')
            \<and> calls (estimator s') = calls (estimator s)
            \<and> getTime (estimator s') = getTime (estimator s)
            \<and> estimator s' = estimator s
            \<and> measMap (imuBuf s') = measMap (imuBuf s)
            \<and> measMap (pclBuf s') = measMap (pclBuf s)
            \<and> measMap (cloudInfoBuf s') = measMap (cloudInfoBuf s)
            \<and> measMap (outlierBuf s') = measMap (outlierBuf s))
       \<and> (isInitialized (estimator s) \<longrightarrow>
           (\<exists>s'. performStateEstimation s = Inr s'
            \<and> estimator s' = estimator s
            \<and> measMap (imuBuf s') = measMap (imuBuf s)
            \<and> measMap (pclBuf s') = measMap (pclBuf s)
            \<and> measMap (cloudInfoBuf s') = measMap (cloudInfoBuf s)
            \<and> measMap (outlierBuf s') = measMap (outlierBuf s)))"
proof (intro conjI impI)
  show "\<exists>s'. processPointClouds s = Inr (False, s')
            \<and> calls (estimator s') = calls (estimator s)
            \<and> getTime (estimator s') = getTime (estimator s)
            \<and> estimator s' = estimator s
            \<and> measMap (imuBuf s') = measMap (imuBuf s)
            \<and> measMap (pclBuf s') = measMap (pclBuf s)
            \<and> measMap (cloudInfoBuf s') = measMap (cloudInfoBuf s)
            \<and> measMap (outlierBuf s') = measMap (outlierBuf s)"
    by (simp add: processPointClouds_False [OF assms])
next
  assume ini: "isInitialized (estimator s)"
  define s0 where "s0 = (case getLastTime (pclBuf s) of
                           Some t \<Rightarrow> s \<lparr> last_scan_time := t \<rparr> | None \<Rightarrow> s)"
  have same: "estimator s0 = estimator s" "imuBuf s0 = imuBuf s" "pclBuf s0 = pclBuf s"
    "cloudInfoBuf s0 = cloudInfoBuf s" "outlierBuf s0 = outlierBuf s"
    by (simp_all add: s0_def split: option.splits)
  have pp: "processPointClouds s0 =
     Inr (False, s0 \<lparr> pclBuf := (pclBuf s0) \<lparr> itMeas := Some scan \<rparr>,
                     scan_time := fst scan,
                     outlierBuf := (outlierBuf s0) \<lparr> itMeas := Some outlier \<rparr>,
                     cloudInfoBuf := (cloudInfoBuf s0) \<lparr> itMeas := Some info \<rparr>,
                     last_imu_time := t_imu \<rparr>)"
    by (rule processPointClouds_False) (simp_all add: same assms)
  have loop: "\<exists>s'. scanLoop s0 = Inr s' \<and> estimator s' = estimator s
            \<and> measMap (imuBuf s') = measMap (imuBuf s)
            \<and> measMap (pclBuf s') = measMap (pclBuf s)
            \<and> measMap (cloudInfoBuf s') = measMap (cloudInfoBuf s)
            \<and> measMap (outlierBuf s') = measMap (outlierBuf s)"
    by (subst scanLoop.simps) (simp add: pp same)
  have nonempty: "measMap (pclBuf s) \<noteq> []" "measMap (outlierBuf s) \<noteq> []"
    "measMap (cloudInfoBuf s) \<noteq> []" "measMap (imuBuf s) \<noteq> []"
    using assms by (auto simp: upper_bound_def getLastTime_def split: if_splits)
  show "\<exists>s'. performStateEstimation s = Inr s'
            \<and> estimator s' = estimator s
            \<and> measMap (imuBuf s') = measMap (imuBuf s)
            \<and> measMap (pclBuf s') = measMap (pclBuf s)
            \<and> measMap (cloudInfoBuf s') = measMap (cloudInfoBuf s)
            \<and> measMap (outlierBuf s') = measMap (outlierBuf s)"
    using loop ini nonempty
    by (simp add: performStateEstimation_def empty_buf_def Let_def s0_def [symmetric])
qed

text \<open>
  An example: cursor at 1.0, a scan with its two side-channel entries at 1.2, the newest
  inertial sample at 1.1.
\<close>

lemma guard_defers_scan_example:
  "upper_bound (measMap (pclBuf (tracking_state 1.0 True [sample 1.1] [(1.2, 2)] [(1.2, 2)] [(1.2, 2)])))
      (getTime (estimator (tracking_state 1.0 True [sample 1.1] [(1.2, 2)] [(1.2, 2)] [(1.2, 2)])))
     = Some (1.2, 2)
   \<and> getLastTime (imuBuf (tracking_state 1.0 True [sample 1.1] [(1.2, 2)] [(1.2, 2)] [(1.2, 2)]))
     = Some 1.1
   \<and> (1.1 :: real) < 1.2
   \<and> (\<exists>s'. processPointClouds (tracking_state 1.0 True [sample 1.1] [(1.2, 2)] [(1.2, 2)] [(1.2, 2)])
              = Inr (False, s')
          \<and> calls (estimator s') = []
          \<and> getTime (estimator s') = 1.0
          \<and> measMap (imuBuf s') = [sample 1.1]
          \<and> measMap (pclBuf s') = [(1.2, 2)])"
proof -
  let ?s = "tracking_state 1.0 True [sample 1.1] [(1.2, 2)] [(1.2, 2)] [(1.2, 2)]"
  have h: "upper_bound (measMap (pclBuf ?s)) (getTime (estimator ?s)) = Some (1.2, 2)"
    "upper_bound (measMap (outlierBuf ?s)) (getTime (estimator ?s)) = Some (1.2, 2)"
    "upper_bound (measMap (cloudInfoBuf ?s)) (getTime (estimator ?s)) = Some (1.2, 2)"
    "getLastTime (imuBuf ?s) = Some 1.1"
    "(1.1::real) < fst (1.2::real, 2::nat)"
    by (simp_all add: tracking_state_def sample_def sched_defs)
  have v: "calls (estimator ?s) = []" "getTime (estimator ?s) = 1.0"
    "measMap (imuBuf ?s) = [sample 1.1]" "measMap (pclBuf ?s) = [(1.2, 2)]"
    by (simp_all add: tracking_state_def sched_defs)
  show ?thesis
    using guard_defers_scan [OF h] h v by auto
qed

text \<open>
  Claim C2 fails on the code. In \<open>deferred_scan_trace\<close> the messages of each stream
  arrive in the order of their timestamps: a first scan with its scan-info and its
  outlier cloud at 1.0, inertial samples at 1.0 and 1.1, a second scan with both side
  channels at 1.2, a third scan with its scan-info at 1.4, whose outlier cloud is still
  on its way, and an inertial sample at 1.3. The callback of that sample enters the loop
  of \<^verbatim>\<open>performStateEstimation\<close>. The first round consumes the scan at 1.2 and cleans the
  buffers; the second round calls \<^verbatim>\<open>processPointClouds\<close> with the cursor at 1.2, the
  newest inertial sample at 1.3, the next scan at 1.4 and an empty outlier map. The
  newest inertial sample is older than the next scan, so by the claim the call returns
  false and changes nothing. The code reads \<^verbatim>\<open>outlierBuf_.measMap_.upper_bound(...)\<close>
  through \<^verbatim>\<open>end()\<close> in line 213, before it comes to the test of line 222. The same
  cursor and buffers at the entry of \<^verbatim>\<open>performStateEstimation\<close> are deferred by the
  emptiness test there, which the later rounds of the loop do not repeat for the outlier
  and the scan-info buffer.
\<close>

theorem guard_not_reached_without_outlier:
  "run deferred_scan_trace initialization = Inl (EndDeref Outlier)
   \<and> (\<exists>s r. run deferred_scan_prefix initialization = Inr s
         \<and> isInitialized (estimator s) \<and> getTime (estimator s) = 1.0
         \<and> processPointClouds
              (s \<lparr> imuBuf := addMeas (Imu 1.3 (Vector3d 0 0 9.8) (Vector3d 0 0 0)) 1.3 (imuBuf s),
                   last_scan_time := 1.4 \<rparr>) = Inr (True, r)
         \<and> getTime (estimator r) = 1.2
         \<and> getLastTime (imuBuf r) = Some 1.3
         \<and> measMap (pclBuf r) = [(1.4, 3)]
         \<and> measMap (cloudInfoBuf r) = [(1.4, 3)]
         \<and> measMap (outlierBuf r) = []
         \<and> processPointClouds
              (r \<lparr> scan_counter := scan_counter r + 1,
                   published := published r @ [scan_time r] \<rparr>) = Inl (EndDeref Outlier))
   \<and> getLastTime (imuBuf (tracking_state 1.2 True [sample 1.3] [(1.4, 3)] [(1.4, 3)] [])) = Some 1.3
   \<and> upper_bound (measMap (pclBuf (tracking_state 1.2 True [sample 1.3] [(1.4, 3)] [(1.4, 3)] [])))
        (getTime (estimator (tracking_state 1.2 True [sample 1.3] [(1.4, 3)] [(1.4, 3)] [])))
      = Some (1.4, 3)
   \<and> (1.3 :: real) < 1.4
   \<and> processPointClouds (tracking_state 1.2 True [sample 1.3] [(1.4, 3)] [(1.4, 3)] [])
       = Inl (EndDeref Outlier)
   \<and> performStateEstimation (tracking_state 1.2 True [sample 1.3] [(1.4, 3)] [(1.4, 3)] [])
       = Inr (tracking_state 1.2 True [sample 1.3] [(1.4, 3)] [(1.4, 3)] [])"
proof (intro conjI)
  show "run deferred_scan_trace initialization = Inl (EndDeref Outlier)"
    by (simp add: deferred_scan_trace_def deferred_scan_prefix_def sched_defs)
next
  show "\<exists>s r. run deferred_scan_prefix initialization = Inr s
         \<and> isInitialized (estimator s) \<and> getTime (estimator s) = 1.0
         \<and> processPointClouds
              (s \<lparr> imuBuf := addMeas (Imu 1.3 (Vector3d 0 0 9.8) (Vector3d 0 0 0)) 1.3 (imuBuf s),
                   last_scan_time := 1.4 \<rparr>) = Inr (True, r)
         \<and> getTime (estimator r) = 1.2
         \<and> getLastTime (imuBuf r) = Some 1.3
         \<and> measMap (pclBuf r) = [(1.4, 3)]
         \<and> measMap (cloudInfoBuf r) = [(1.4, 3)]
         \<and> measMap (outlierBuf r) = []
         \<and> processPointClouds
              (r \<lparr> scan_counter := scan_counter r + 1,
                   published := published r @ [scan_time r] \<rparr>) = Inl (EndDeref Outlier)"
    by (simp add: deferred_scan_prefix_def sched_defs)
next
  show "processPointClouds (tracking_state 1.2 True [sample 1.3] [(1.4, 3)] [(1.4, 3)] [])
       = Inl (EndDeref Outlier)"
    by (simp add: tracking_state_def sample_def sched_defs)
next
  show "performStateEstimation (tracking_state 1.2 True [sample 1.3] [(1.4, 3)] [(1.4, 3)] [])
       = Inr (tracking_state 1.2 True [sample 1.3] [(1.4, 3)] [(1.4, 3)] [])"
    by (simp add: tracking_state_def sample_def sched_defs)
qed (simp_all add: tracking_state_def sample_def sched_defs)

text \<open>
  Claim C3. A round of the drain loop, entered with the cursor before the scan time and
  with \<open>e\<close> the first inertial sample after the cursor, calls \<^verbatim>\<open>processImu\<close> once, with
  \<open>dt = min (time of e) (scan time) - cursor\<close>, and the cursor becomes \<open>cursor + dt\<close>; when
  \<open>e\<close> lies after the scan time, \<open>dt\<close> is \<open>scan time - cursor\<close>, the cursor is the scan
  time and the loop ends with this round. When \<^verbatim>\<open>processPointClouds\<close> has consumed a scan,
  the cursor is the scan time, the inertial map holds exactly its former entries after
  the scan time, and the first sample after the cursor is the one that was the first
  after the scan time before: the sample that closed the window is selected again.
\<close>

theorem drain_step_and_boundary_sample:
  "(getTime (estimator s) < scan_time s
      \<and> upper_bound (measMap (imuBuf s)) (getTime (estimator s)) = Some e \<longrightarrow>
      (let dt' = min (fst e) (scan_time s) - getTime (estimator s);
           e1 = processImu dt' (acc (snd e)) (gyr (snd e)) (estimator s);
           s1 = s \<lparr> imuBuf := (imuBuf s) \<lparr> itMeas := Some e \<rparr>, estimator := e1 \<rparr>
       in drainImu s = drainImu s1
        \<and> calls e1 = calls (estimator s) @ [ProcessImu dt' (acc (snd e)) (gyr (snd e))]
        \<and> getTime e1 = getTime (estimator s) + dt'
        \<and> (scan_time s < fst e \<longrightarrow>
             dt' = scan_time s - getTime (estimator s) \<and> getTime e1 = scan_time s
             \<and> drainImu s = s1)))
   \<and> (processPointClouds s = Inr (True, s') \<longrightarrow>
        getTime (estimator s') = scan_time s'
        \<and> measMap (imuBuf s') = filter (\<lambda>e. scan_time s' < fst e) (measMap (imuBuf s))
        \<and> (\<forall>e \<in> set (measMap (imuBuf s)). scan_time s' < fst e \<longrightarrow> e \<in> set (measMap (imuBuf s')))
        \<and> upper_bound (measMap (imuBuf s')) (getTime (estimator s'))
            = upper_bound (measMap (imuBuf s)) (scan_time s'))"
proof (intro conjI impI)
  assume a: "getTime (estimator s) < scan_time s
      \<and> upper_bound (measMap (imuBuf s)) (getTime (estimator s)) = Some e"
  define dt' where "dt' = min (fst e) (scan_time s) - getTime (estimator s)"
  define e1 where "e1 = processImu dt' (acc (snd e)) (gyr (snd e)) (estimator s)"
  define s1 where "s1 = s \<lparr> imuBuf := (imuBuf s) \<lparr> itMeas := Some e \<rparr>, estimator := e1 \<rparr>"
  have step: "drainImu s = drainImu s1"
    using a by (simp add: drainImu_step s1_def e1_def dt'_def)
  have log: "calls e1 = calls (estimator s) @ [ProcessImu dt' (acc (snd e)) (gyr (snd e))]"
    and adv: "getTime e1 = getTime (estimator s) + dt'"
    by (simp_all add: e1_def processImu_def getTime_def)
  have clip: "dt' = scan_time s - getTime (estimator s) \<and> getTime e1 = scan_time s
             \<and> drainImu s = s1" if "scan_time s < fst e"
  proof -
    have d: "dt' = scan_time s - getTime (estimator s)"
      using that by (simp add: dt'_def)
    have c: "getTime e1 = scan_time s"
      by (simp add: adv d)
    have "drainImu s1 = s1"
      by (rule drainImu_stop) (simp add: s1_def c)
    with step d c show ?thesis by simp
  qed
  show "let dt' = min (fst e) (scan_time s) - getTime (estimator s);
            e1 = processImu dt' (acc (snd e)) (gyr (snd e)) (estimator s);
            s1 = s \<lparr> imuBuf := (imuBuf s) \<lparr> itMeas := Some e \<rparr>, estimator := e1 \<rparr>
        in drainImu s = drainImu s1
         \<and> calls e1 = calls (estimator s) @ [ProcessImu dt' (acc (snd e)) (gyr (snd e))]
         \<and> getTime e1 = getTime (estimator s) + dt'
         \<and> (scan_time s < fst e \<longrightarrow>
             dt' = scan_time s - getTime (estimator s) \<and> getTime e1 = scan_time s
             \<and> drainImu s = s1)"
    unfolding Let_def dt'_def [symmetric] e1_def [symmetric] s1_def [symmetric]
    using step log adv clip by blast
next
  assume p: "processPointClouds s = Inr (True, s')"
  from processPointClouds_True [OF p] obtain scan where
    st: "scan_time s' = fst scan" and c: "getTime (estimator s') = fst scan"
    and m: "measMap (imuBuf s') = filter (\<lambda>e. \<not> fst e \<le> fst scan) (measMap (imuBuf s))"
    by auto
  show "getTime (estimator s') = scan_time s'" by (simp add: st c)
  show m': "measMap (imuBuf s') = filter (\<lambda>e. scan_time s' < fst e) (measMap (imuBuf s))"
    by (simp add: m st not_le)
  show "\<forall>e \<in> set (measMap (imuBuf s)). scan_time s' < fst e \<longrightarrow> e \<in> set (measMap (imuBuf s'))"
    by (simp add: m')
  have "find (\<lambda>e. scan_time s' < fst e) (filter (\<lambda>e. scan_time s' < fst e) (measMap (imuBuf s)))
        = find (\<lambda>e. scan_time s' < fst e) (measMap (imuBuf s))"
    by (rule find_filter_same) simp
  then show "upper_bound (measMap (imuBuf s')) (getTime (estimator s'))
            = upper_bound (measMap (imuBuf s)) (scan_time s')"
    by (simp add: upper_bound_def m' st c)
qed

text \<open>
  The hypotheses of the theorem hold together, on the example of the spec: scans at 1.0
  and 1.2, inertial samples at 0.95 and 1.05. From the cursor 0.95 the sample at 1.05 is
  applied with \<open>dt = 0.05\<close>; a whole call from the cursor 0.9 integrates twice, consumes
  the scan at 1.0 and keeps the sample at 1.05, which is the next one selected.
\<close>

theorem drain_step_and_boundary_sample_witness:
  "getTime (estimator ((straddle_state 0.95) \<lparr> scan_time := 1.0 \<rparr>))
      < scan_time ((straddle_state 0.95) \<lparr> scan_time := 1.0 \<rparr>)
   \<and> upper_bound (measMap (imuBuf ((straddle_state 0.95) \<lparr> scan_time := 1.0 \<rparr>)))
         (getTime (estimator ((straddle_state 0.95) \<lparr> scan_time := 1.0 \<rparr>)))
       = Some (sample 1.05)
   \<and> scan_time ((straddle_state 0.95) \<lparr> scan_time := 1.0 \<rparr>) < fst (sample 1.05)
   \<and> estimator (drainImu ((straddle_state 0.95) \<lparr> scan_time := 1.0 \<rparr>))
       = \<lparr> cursor = 1.0, initialized = True,
           calls = [ProcessImu 0.05 (Vector3d 0 0 9.8) (Vector3d 0 0 0)] \<rparr>
   \<and> (\<exists>s'. processPointClouds (straddle_state 0.9) = Inr (True, s')
          \<and> calls (estimator s') =
               [ProcessImu 0.05 (Vector3d 0 0 9.8) (Vector3d 0 0 0),
                ProcessImu 0.05 (Vector3d 0 0 9.8) (Vector3d 0 0 0),
                ProcessPCL 1.0 (Some (snd (sample 1.05))) 1 (Some 1) 1]
          \<and> getTime (estimator s') = 1.0
          \<and> measMap (imuBuf s') = [sample 1.05]
          \<and> upper_bound (measMap (imuBuf s')) (getTime (estimator s')) = Some (sample 1.05))"
proof -
  let ?a = "(straddle_state 0.95) \<lparr> scan_time := 1.0 \<rparr>"
  let ?b = "straddle_state 0.9"
  have a1: "getTime (estimator ?a) < scan_time ?a"
    and a2: "upper_bound (measMap (imuBuf ?a)) (getTime (estimator ?a)) = Some (sample 1.05)"
    and a3: "scan_time ?a < fst (sample 1.05)"
    by (simp_all add: straddle_state_def tracking_state_def sample_def sched_defs)
  obtain s' where b1: "processPointClouds ?b = Inr (True, s')"
    and b2: "scan_time s' = 1.0"
    and b3: "calls (estimator s') =
               [ProcessImu 0.05 (Vector3d 0 0 9.8) (Vector3d 0 0 0),
                ProcessImu 0.05 (Vector3d 0 0 9.8) (Vector3d 0 0 0),
                ProcessPCL 1.0 (Some (snd (sample 1.05))) 1 (Some 1) 1]"
    by (simp add: straddle_state_def tracking_state_def sample_def sched_defs)
  have b4: "measMap (imuBuf ?b) = [sample 0.95, sample 1.05]"
    by (simp add: straddle_state_def tracking_state_def sched_defs)
  note inst = drain_step_and_boundary_sample
  have "getTime (estimator ?a) < scan_time ?a
      \<and> upper_bound (measMap (imuBuf ?a)) (getTime (estimator ?a)) = Some (sample 1.05) \<longrightarrow>
      (let dt' = min (fst (sample 1.05)) (scan_time ?a) - getTime (estimator ?a);
           e1 = processImu dt' (acc (snd (sample 1.05))) (gyr (snd (sample 1.05))) (estimator ?a);
           s1 = ?a \<lparr> imuBuf := (imuBuf ?a) \<lparr> itMeas := Some (sample 1.05) \<rparr>, estimator := e1 \<rparr>
       in drainImu ?a = drainImu s1
        \<and> calls e1 = calls (estimator ?a)
              @ [ProcessImu dt' (acc (snd (sample 1.05))) (gyr (snd (sample 1.05)))]
        \<and> getTime e1 = getTime (estimator ?a) + dt'
        \<and> (scan_time ?a < fst (sample 1.05) \<longrightarrow>
             dt' = scan_time ?a - getTime (estimator ?a) \<and> getTime e1 = scan_time ?a
             \<and> drainImu ?a = s1))"
    using inst [of ?a "sample 1.05"] by (rule conjunct1)
  with a1 a2 a3 have
    "drainImu ?a = ?a \<lparr> imuBuf := (imuBuf ?a) \<lparr> itMeas := Some (sample 1.05) \<rparr>,
         estimator := processImu (min (fst (sample 1.05)) (scan_time ?a) - getTime (estimator ?a))
                        (acc (snd (sample 1.05))) (gyr (snd (sample 1.05))) (estimator ?a) \<rparr>"
    unfolding Let_def by blast
  then have A: "estimator (drainImu ?a) = \<lparr> cursor = 1.0, initialized = True,
           calls = [ProcessImu 0.05 (Vector3d 0 0 9.8) (Vector3d 0 0 0)] \<rparr>"
    by (simp add: straddle_state_def tracking_state_def sample_def initialization_def
          new_StateEstimator_def processImu_def getTime_def)
  have "processPointClouds ?b = Inr (True, s') \<longrightarrow>
        getTime (estimator s') = scan_time s'
        \<and> measMap (imuBuf s') = filter (\<lambda>e. scan_time s' < fst e) (measMap (imuBuf ?b))
        \<and> (\<forall>e \<in> set (measMap (imuBuf ?b)). scan_time s' < fst e \<longrightarrow> e \<in> set (measMap (imuBuf s')))
        \<and> upper_bound (measMap (imuBuf s')) (getTime (estimator s'))
            = upper_bound (measMap (imuBuf ?b)) (scan_time s')"
    using inst [where s = ?b and s' = s'] by (rule conjunct2)
  with b1 have B: "getTime (estimator s') = scan_time s'"
    "measMap (imuBuf s') = filter (\<lambda>e. scan_time s' < fst e) (measMap (imuBuf ?b))"
    "upper_bound (measMap (imuBuf s')) (getTime (estimator s'))
       = upper_bound (measMap (imuBuf ?b)) (scan_time s')"
    by blast+
  have B': "getTime (estimator s') = 1.0" "measMap (imuBuf s') = [sample 1.05]"
    "upper_bound (measMap (imuBuf s')) (getTime (estimator s')) = Some (sample 1.05)"
    using B unfolding b2 b4 by (simp_all add: sample_def upper_bound_def)
  show ?thesis
    using a1 a2 a3 A b1 b3 B' by blast
qed

text \<open>
  Claim C9, as the code has it. With the estimator not initialised and the four buffers
  non-empty, \<^verbatim>\<open>performStateEstimation\<close> makes one call of \<^verbatim>\<open>processPCL\<close>, with the time and
  content of the newest scan, the newest inertial sample, and the newest scan-info and
  outlier entries, whatever the timestamps of the inertial samples are. Afterwards the
  estimator is initialised, the scan, scan-info and outlier maps keep exactly their
  entries after the cursor, and the inertial buffer is as it was.
\<close>

theorem first_scan_bootstrap:
  assumes "\<not> isInitialized (estimator s)"
      and "\<not> empty_buf (imuBuf s)" and "\<not> empty_buf (pclBuf s)"
      and "\<not> empty_buf (cloudInfoBuf s)" and "\<not> empty_buf (outlierBuf s)"
  shows "\<exists>s'. performStateEstimation s = Inr s'
     \<and> calls (estimator s') = calls (estimator s) @
          [ProcessPCL (fst (last (measMap (pclBuf s))))
             (Some (snd (last (measMap (imuBuf s)))))
             (snd (last (measMap (pclBuf s))))
             (Some (snd (last (measMap (cloudInfoBuf s)))))
             (snd (last (measMap (outlierBuf s))))]
     \<and> isInitialized (estimator s')
     \<and> getTime (estimator s') = fst (last (measMap (pclBuf s)))
     \<and> measMap (pclBuf s')
         = filter (\<lambda>e. getTime (estimator s') < fst e) (measMap (pclBuf s))
     \<and> measMap (cloudInfoBuf s')
         = filter (\<lambda>e. getTime (estimator s') < fst e) (measMap (cloudInfoBuf s))
     \<and> measMap (outlierBuf s')
         = filter (\<lambda>e. getTime (estimator s') < fst e) (measMap (outlierBuf s))
     \<and> imuBuf s' = imuBuf s"
  using assms
  by (simp add: performStateEstimation_def processFirstPointCloud_def empty_buf_def getLastTime_def
        getLastMeas_def Let_def processPCL_def clean_def getTime_def isInitialized_def not_le)

text \<open>
  The hypotheses of the theorem hold together: scans and side-channel entries at 0.8 and
  1.0, inertial samples at 0.5 and 0.9 (none as late as the scan).
\<close>

theorem first_scan_bootstrap_witness:
  "\<not> isInitialized (estimator first_scan_state)
   \<and> \<not> empty_buf (imuBuf first_scan_state) \<and> \<not> empty_buf (pclBuf first_scan_state)
   \<and> \<not> empty_buf (cloudInfoBuf first_scan_state) \<and> \<not> empty_buf (outlierBuf first_scan_state)
   \<and> (\<exists>s'. performStateEstimation first_scan_state = Inr s'
        \<and> calls (estimator s') = [ProcessPCL 1.0 (Some (snd (sample 0.9))) 2 (Some 2) 2]
        \<and> isInitialized (estimator s')
        \<and> getTime (estimator s') = 1.0
        \<and> measMap (pclBuf s') = []
        \<and> measMap (cloudInfoBuf s') = []
        \<and> measMap (outlierBuf s') = []
        \<and> measMap (imuBuf s') = [sample 0.5, sample 0.9])"
proof -
  have h: "\<not> isInitialized (estimator first_scan_state)"
    "\<not> empty_buf (imuBuf first_scan_state)" "\<not> empty_buf (pclBuf first_scan_state)"
    "\<not> empty_buf (cloudInfoBuf first_scan_state)" "\<not> empty_buf (outlierBuf first_scan_state)"
    by (simp_all add: first_scan_state_def tracking_state_def sched_defs)
  have v: "calls (estimator first_scan_state) = []"
    "measMap (pclBuf first_scan_state) = [(0.8, 1), (1.0, 2)]"
    "measMap (cloudInfoBuf first_scan_state) = [(0.8, 1), (1.0, 2)]"
    "measMap (outlierBuf first_scan_state) = [(0.8, 1), (1.0, 2)]"
    "measMap (imuBuf first_scan_state) = [sample 0.5, sample 0.9]"
    by (simp_all add: first_scan_state_def tracking_state_def sched_defs)
  from first_scan_bootstrap [OF h] obtain s' where
    r: "performStateEstimation first_scan_state = Inr s'"
    and c: "calls (estimator s') = calls (estimator first_scan_state) @
          [ProcessPCL (fst (last (measMap (pclBuf first_scan_state))))
             (Some (snd (last (measMap (imuBuf first_scan_state)))))
             (snd (last (measMap (pclBuf first_scan_state))))
             (Some (snd (last (measMap (cloudInfoBuf first_scan_state)))))
             (snd (last (measMap (outlierBuf first_scan_state))))]"
    and i: "isInitialized (estimator s')"
    and t: "getTime (estimator s') = fst (last (measMap (pclBuf first_scan_state)))"
    and m: "measMap (pclBuf s')
         = filter (\<lambda>e. getTime (estimator s') < fst e) (measMap (pclBuf first_scan_state))"
      "measMap (cloudInfoBuf s')
         = filter (\<lambda>e. getTime (estimator s') < fst e) (measMap (cloudInfoBuf first_scan_state))"
      "measMap (outlierBuf s')
         = filter (\<lambda>e. getTime (estimator s') < fst e) (measMap (outlierBuf first_scan_state))"
    and u: "imuBuf s' = imuBuf first_scan_state"
    by blast
  have t': "getTime (estimator s') = 1.0"
    using t unfolding v by simp
  have c': "calls (estimator s') = [ProcessPCL 1.0 (Some (snd (sample 0.9))) 2 (Some 2) 2]"
    using c unfolding v by simp
  have m': "measMap (pclBuf s') = []" "measMap (cloudInfoBuf s') = []"
    "measMap (outlierBuf s') = []"
    using m unfolding v t' by simp_all
  have u': "measMap (imuBuf s') = [sample 0.5, sample 0.9]"
    using u v by simp
  show ?thesis
    using h r c' i t' m' u' by blast
qed

text \<open>
  Claim C9 as stated fails for the inertial stream: the sample at 0.5, older than the
  scan at 1.0, is still buffered after the first scan was handed over.
\<close>

theorem first_scan_keeps_old_imu:
  "\<not> isInitialized (estimator first_scan_state)
   \<and> \<not> empty_buf (imuBuf first_scan_state) \<and> \<not> empty_buf (pclBuf first_scan_state)
   \<and> \<not> empty_buf (cloudInfoBuf first_scan_state) \<and> \<not> empty_buf (outlierBuf first_scan_state)
   \<and> (\<exists>s'. performStateEstimation first_scan_state = Inr s'
        \<and> scan_time s' = 1.0
        \<and> sample 0.5 \<in> set (measMap (imuBuf s'))
        \<and> fst (sample 0.5) < scan_time s')"
  by (simp add: first_scan_state_def tracking_state_def sample_def sched_defs)

subsection \<open>The maps stay in order, and the scan lookup is covered by the tests\<close>

text \<open>
  Insertion and eviction keep a map in order; on a map in order \<^verbatim>\<open>clean\<close> is the loop that
  erases from the front, and \<^verbatim>\<open>upper_bound\<close> finds the least timestamp after \<open>t\<close>.
\<close>

lemma map_sorted_Cons:
  "map_sorted (e # m) = (map_sorted m \<and> (\<forall>x \<in> set m. fst e < fst x))"
  by (auto simp: map_sorted_def)

lemma set_map_insert: "set (map_insert t x m) \<subseteq> insert (t, x) (set m)"
  by (induction t x m rule: map_insert.induct) (auto split: if_splits)

lemma map_insert_sorted: "map_sorted m \<Longrightarrow> map_sorted (map_insert t x m)"
proof (induction m)
  case Nil
  then show ?case by (simp add: map_sorted_def)
next
  case (Cons e m)
  obtain k y where e: "e = (k, y)" by (cases e)
  show ?case
  proof (cases "t < k")
    case True
    then show ?thesis using Cons.prems e by (auto simp: map_sorted_Cons)
  next
    case False
    show ?thesis
    proof (cases "t = k")
      case True
      then show ?thesis using Cons.prems e by simp
    next
      case neq: False
      have "map_sorted (map_insert t x m)" using Cons by (simp add: map_sorted_Cons)
      moreover have "\<forall>z \<in> set (map_insert t x m). k < fst z"
        using set_map_insert [of t x m] Cons.prems False neq e
        by (auto simp: map_sorted_Cons)
      ultimately show ?thesis using False neq e by (simp add: map_sorted_Cons)
    qed
  qed
qed

lemma map_sorted_tl: "map_sorted m \<Longrightarrow> map_sorted (tl m)"
  by (cases m) (simp_all add: map_sorted_def)

lemma map_sorted_filter: "map_sorted m \<Longrightarrow> map_sorted (filter P m)"
  by (induction m) (auto simp: map_sorted_Cons map_sorted_def)

lemma addMeas_sorted: "map_sorted (measMap b) \<Longrightarrow> map_sorted (measMap (addMeas x t b))"
  by (simp add: addMeas_def Let_def map_insert_sorted map_sorted_tl)

lemma clean_sorted: "map_sorted (measMap b) \<Longrightarrow> map_sorted (measMap (clean t b))"
  by (simp add: clean_def map_sorted_filter)

lemma sorted_filter_last:
  "map_sorted m \<Longrightarrow> filter (\<lambda>e. \<not> fst e \<le> t) m \<noteq> [] \<Longrightarrow>
   last (filter (\<lambda>e. \<not> fst e \<le> t) m) = last m"
proof (induction m)
  case Nil
  then show ?case by simp
next
  case (Cons e m)
  show ?case
  proof (cases "m = []")
    case True
    then show ?thesis using Cons.prems by (auto split: if_splits)
  next
    case False
    have lt: "fst e < fst (last m)"
      using Cons.prems(1) False by (simp add: map_sorted_Cons)
    show ?thesis
    proof (cases "filter (\<lambda>e. \<not> fst e \<le> t) m = []")
      case True
      then have "fst (last m) \<le> t"
        using False last_in_set [OF False] by (auto simp: filter_empty_conv)
      then have "fst e \<le> t" using lt by simp
      then show ?thesis using Cons.prems(2) True by simp
    next
      case nonempty: False
      have "last (filter (\<lambda>e. \<not> fst e \<le> t) m) = last m"
        using Cons.IH Cons.prems(1) nonempty by (simp add: map_sorted_Cons)
      then show ?thesis using False nonempty by simp
    qed
  qed
qed

lemma sorted_clean_dropWhile:
  "map_sorted m \<Longrightarrow> filter (\<lambda>e. \<not> fst e \<le> t) m = dropWhile (\<lambda>e. fst e \<le> t) m"
proof (induction m)
  case Nil
  then show ?case by simp
next
  case (Cons e m)
  show ?case
  proof (cases "fst e \<le> t")
    case True
    then show ?thesis using Cons by (simp add: map_sorted_Cons)
  next
    case False
    then have "\<forall>x \<in> set m. \<not> fst x \<le> t"
      using Cons.prems by (auto simp: map_sorted_Cons)
    then have "filter (\<lambda>e. \<not> fst e \<le> t) m = m"
      by (simp add: filter_id_conv)
    then show ?thesis using False by simp
  qed
qed

lemma sorted_upper_bound_least:
  "map_sorted m \<Longrightarrow> upper_bound m t = Some e \<Longrightarrow> x \<in> set m \<Longrightarrow> t < fst x \<Longrightarrow> fst e \<le> fst x"
proof (induction m)
  case Nil
  then show ?case by simp
next
  case (Cons y m)
  show ?case
  proof (cases "t < fst y")
    case True
    then have "e = y" using Cons.prems(2) by (simp add: upper_bound_def)
    then show ?thesis using Cons.prems(1,3) by (auto simp: map_sorted_Cons)
  next
    case False
    then have "upper_bound m t = Some e" "x \<in> set m"
      using Cons.prems by (auto simp: upper_bound_def)
    then show ?thesis using Cons.IH Cons.prems(1,4) by (simp add: map_sorted_Cons)
  qed
qed

lemma processPointClouds_Scan_fault:
  "(processPointClouds s = Inl (EndDeref Scan))
     = (upper_bound (measMap (pclBuf s)) (getTime (estimator s)) = None)"
  by (simp add: processPointClouds_def Let_def split: option.splits)

lemma processPointClouds_pcl:
  assumes "processPointClouds s = Inr (b, s')"
  shows "last_scan_time s' = last_scan_time s
     \<and> (\<exists>t. measMap (pclBuf s') = (if b then filter (\<lambda>e. \<not> fst e \<le> t) (measMap (pclBuf s))
                                    else measMap (pclBuf s)))"
  using assms
  by (auto simp: processPointClouds_def Let_def drainImu_frame clean_def
        split: option.splits if_splits)

lemma scan_inv_step:
  assumes "scan_inv s" and "processPointClouds s = Inr (b, s')"
  shows "scan_inv (s' \<lparr> scan_counter := n, published := p \<rparr>)" and "map_sorted (measMap (pclBuf s'))"
proof -
  from processPointClouds_pcl [OF assms(2)] obtain t where
    l: "last_scan_time s' = last_scan_time s"
    and m: "measMap (pclBuf s') = (if b then filter (\<lambda>e. \<not> fst e \<le> t) (measMap (pclBuf s))
                                    else measMap (pclBuf s))"
    by blast
  have srt: "map_sorted (measMap (pclBuf s))" using assms(1) by (simp add: scan_inv_def)
  show s': "map_sorted (measMap (pclBuf s'))"
    using srt by (simp add: m map_sorted_filter)
  have "measMap (pclBuf s') = [] \<or> fst (last (measMap (pclBuf s'))) = last_scan_time s'"
  proof (cases b)
    case False
    then show ?thesis using assms(1) by (simp add: m l scan_inv_def)
  next
    case True
    show ?thesis
    proof (cases "measMap (pclBuf s') = []")
      case True
      then show ?thesis by simp
    next
      case False
      then have ne: "filter (\<lambda>e. \<not> fst e \<le> t) (measMap (pclBuf s)) \<noteq> []"
        using \<open>b\<close> by (simp add: m)
      then have "measMap (pclBuf s) \<noteq> []" by auto
      then have "fst (last (measMap (pclBuf s))) = last_scan_time s"
        using assms(1) by (simp add: scan_inv_def)
      then show ?thesis
        using \<open>b\<close> sorted_filter_last [OF srt ne] by (simp add: m l)
    qed
  qed
  then show "scan_inv (s' \<lparr> scan_counter := n, published := p \<rparr>)"
    using s' by (simp add: scan_inv_def)
qed

lemma scanLoop_scan_ok:
  "scan_inv s \<Longrightarrow>
   scanLoop s \<noteq> Inl (EndDeref Scan)
   \<and> (\<forall>s'. scanLoop s = Inr s' \<longrightarrow> map_sorted (measMap (pclBuf s')))"
proof (induction s rule: scanLoop.induct)
  case (1 s)
  show ?case
  proof (cases "\<not> empty_buf (pclBuf s) \<and> getTime (estimator s) < last_scan_time s")
    case False
    then have "scanLoop s = Inr s" by (subst scanLoop.simps) auto
    then show ?thesis using "1.prems" by (simp add: scan_inv_def)
  next
    case True
    then have ne: "measMap (pclBuf s) \<noteq> []"
      and lt: "getTime (estimator s) < fst (last (measMap (pclBuf s)))"
      using "1.prems" by (auto simp: empty_buf_def scan_inv_def)
    have ub: "upper_bound (measMap (pclBuf s)) (getTime (estimator s)) \<noteq> None"
      by (rule upper_bound_last [OF ne lt])
    show ?thesis
    proof (cases "processPointClouds s")
      case (Inl f)
      then have "scanLoop s = Inl f" using True by (subst scanLoop.simps) simp
      moreover have "f \<noteq> EndDeref Scan"
        using Inl ub processPointClouds_Scan_fault [of s] by auto
      ultimately show ?thesis by simp
    next
      case (Inr r)
      obtain b s' where r: "r = (b, s')" by (cases r)
      show ?thesis
      proof (cases b)
        case False
        then have "scanLoop s = Inr s'" using True Inr r by (subst scanLoop.simps) simp
        then show ?thesis
          using scan_inv_step(2) [OF "1.prems"] Inr r by simp
      next
        case b: True
        let ?s2 = "s' \<lparr> scan_counter := scan_counter s' + 1,
                         published := published s' @ [scan_time s'] \<rparr>"
        have eq: "scanLoop s = scanLoop ?s2"
          using True Inr r b by (subst scanLoop.simps) simp
        have "scan_inv ?s2"
          using scan_inv_step(1) [OF "1.prems"] Inr r by simp
        then show ?thesis
          using "1.IH" [OF True Inr] r b eq by simp
      qed
    qed
  qed
qed

lemma performStateEstimation_scan_ok:
  assumes "map_sorted (measMap (pclBuf s))"
  shows "performStateEstimation s \<noteq> Inl (EndDeref Scan)
     \<and> (\<forall>s'. performStateEstimation s = Inr s' \<longrightarrow> map_sorted (measMap (pclBuf s')))"
proof (cases "empty_buf (imuBuf s) \<or> empty_buf (pclBuf s) \<or> empty_buf (cloudInfoBuf s)
              \<or> empty_buf (outlierBuf s)")
  case True
  then have "performStateEstimation s = Inr s" by (simp add: performStateEstimation_def)
  then show ?thesis using assms by simp
next
  case ne: False
  show ?thesis
  proof (cases "isInitialized (estimator s)")
    case False
    then have "performStateEstimation s = processFirstPointCloud s"
      using ne by (simp add: performStateEstimation_def)
    then show ?thesis
      using assms
      by (auto simp: processFirstPointCloud_def Let_def clean_def map_sorted_filter
            split: option.splits)
  next
    case True
    define s0 where "s0 = (case getLastTime (pclBuf s) of
                             Some t \<Rightarrow> s \<lparr> last_scan_time := t \<rparr> | None \<Rightarrow> s)"
    have "performStateEstimation s = scanLoop s0"
      using ne True by (simp add: performStateEstimation_def s0_def Let_def)
    moreover have "scan_inv s0"
      using assms ne
      by (simp add: scan_inv_def s0_def getLastTime_def empty_buf_def)
    ultimately show ?thesis using scanLoop_scan_ok by simp
  qed
qed

lemma callback_scan_ok:
  assumes "map_sorted (measMap (pclBuf s))"
  shows "callback ev s \<noteq> Inl (EndDeref Scan)
     \<and> (\<forall>s'. callback ev s = Inr s' \<longrightarrow> map_sorted (measMap (pclBuf s')))"
proof (cases ev)
  case (ImuMsg t a g)
  then show ?thesis
    using performStateEstimation_scan_ok
            [of "s \<lparr> imuBuf := addMeas (Imu t a g) t (imuBuf s) \<rparr>"] assms
    by (simp add: imuCallback_def)
next
  case (LaserCloudMsg t m)
  then show ?thesis using assms by (simp add: laserCloudCallback_def addMeas_sorted)
next
  case (LaserCloudInfoMsg t m)
  then show ?thesis using assms by (simp add: laserCloudInfoCallback_def)
next
  case (OutlierCloudMsg t m)
  then show ?thesis using assms by (simp add: outlierCloudCallback_def)
qed

lemma run_scan_ok:
  "map_sorted (measMap (pclBuf s)) \<Longrightarrow> run evs s \<noteq> Inl (EndDeref Scan)"
proof (induction evs arbitrary: s)
  case Nil
  then show ?case by simp
next
  case (Cons ev evs)
  show ?case
  proof (cases "callback ev s")
    case (Inl f)
    then show ?thesis using callback_scan_ok [OF Cons.prems, of ev] by simp
  next
    case (Inr s')
    then have "map_sorted (measMap (pclBuf s'))"
      using callback_scan_ok [OF Cons.prems, of ev] by simp
    then show ?thesis using Inr Cons.IH by simp
  qed
qed

lemma initialization_sorted: "map_sorted (measMap (pclBuf initialization))"
  by (simp add: initialization_def allocate_def map_sorted_def)

text \<open>
  Claim C10. \<^verbatim>\<open>processPointClouds\<close> reads through \<^verbatim>\<open>end()\<close> of the scan map, of the outlier
  map or of the scan-info map exactly when that map is the first of the three, in this
  order, with no entry after the cursor. The tests of \<^verbatim>\<open>performStateEstimation\<close> (a
  non-empty scan buffer whose newest time is after the cursor) give the scan map such an
  entry, and on no trace of messages does the scheduler read through \<^verbatim>\<open>end()\<close> of the scan
  map. Nothing gives the other two maps such an entry: \<^verbatim>\<open>performStateEstimation\<close> reads
  through \<^verbatim>\<open>end()\<close> on a state that passes all its tests and whose only outlier entry, or
  only scan-info entry, is older than the cursor; and it does so at the end of a trace
  of messages in which every stream arrives in the order of its timestamps and the
  second outlier cloud, or the second scan-info, has not arrived yet when the loop goes
  on to the second scan.
\<close>

theorem side_channel_selection_unchecked:
  "(processPointClouds s = Inl (EndDeref Scan))
      = (upper_bound (measMap (pclBuf s)) (getTime (estimator s)) = None)
   \<and> (processPointClouds s = Inl (EndDeref Outlier))
      = (upper_bound (measMap (pclBuf s)) (getTime (estimator s)) \<noteq> None
         \<and> upper_bound (measMap (outlierBuf s)) (getTime (estimator s)) = None)
   \<and> (processPointClouds s = Inl (EndDeref CloudInfo))
      = (upper_bound (measMap (pclBuf s)) (getTime (estimator s)) \<noteq> None
         \<and> upper_bound (measMap (outlierBuf s)) (getTime (estimator s)) \<noteq> None
         \<and> upper_bound (measMap (cloudInfoBuf s)) (getTime (estimator s)) = None)
   \<and> (\<not> empty_buf (pclBuf s) \<and> getLastTime (pclBuf s) = Some (last_scan_time s)
        \<and> getTime (estimator s) < last_scan_time s
      \<longrightarrow> upper_bound (measMap (pclBuf s)) (getTime (estimator s)) \<noteq> None)
   \<and> run evs initialization \<noteq> Inl (EndDeref Scan)
   \<and> performStateEstimation
        (tracking_state 1.0 True [sample 1.3] [(1.2, 2)] [(1.2, 2)] [(0.9, 1)])
       = Inl (EndDeref Outlier)
   \<and> performStateEstimation
        (tracking_state 1.0 True [sample 1.3] [(1.2, 2)] [(0.9, 1)] [(1.2, 2)])
       = Inl (EndDeref CloudInfo)
   \<and> run late_outlier_trace initialization = Inl (EndDeref Outlier)
   \<and> run late_info_trace initialization = Inl (EndDeref CloudInfo)"
proof (intro conjI impI)
  show "(processPointClouds s = Inl (EndDeref Scan))
      = (upper_bound (measMap (pclBuf s)) (getTime (estimator s)) = None)"
    by (rule processPointClouds_Scan_fault)
next
  show "(processPointClouds s = Inl (EndDeref Outlier))
      = (upper_bound (measMap (pclBuf s)) (getTime (estimator s)) \<noteq> None
         \<and> upper_bound (measMap (outlierBuf s)) (getTime (estimator s)) = None)"
    by (auto simp: processPointClouds_def Let_def split: option.splits)
next
  show "(processPointClouds s = Inl (EndDeref CloudInfo))
      = (upper_bound (measMap (pclBuf s)) (getTime (estimator s)) \<noteq> None
         \<and> upper_bound (measMap (outlierBuf s)) (getTime (estimator s)) \<noteq> None
         \<and> upper_bound (measMap (cloudInfoBuf s)) (getTime (estimator s)) = None)"
    by (auto simp: processPointClouds_def Let_def split: option.splits)
next
  assume "\<not> empty_buf (pclBuf s) \<and> getLastTime (pclBuf s) = Some (last_scan_time s)
        \<and> getTime (estimator s) < last_scan_time s"
  then show "upper_bound (measMap (pclBuf s)) (getTime (estimator s)) \<noteq> None"
    by (intro upper_bound_last) (auto simp: empty_buf_def getLastTime_def split: if_splits)
next
  show "run evs initialization \<noteq> Inl (EndDeref Scan)"
    by (rule run_scan_ok) (rule initialization_sorted)
next
  show "performStateEstimation
        (tracking_state 1.0 True [sample 1.3] [(1.2, 2)] [(1.2, 2)] [(0.9, 1)])
       = Inl (EndDeref Outlier)"
    by (simp add: tracking_state_def sample_def sched_defs)
next
  show "performStateEstimation
        (tracking_state 1.0 True [sample 1.3] [(1.2, 2)] [(0.9, 1)] [(1.2, 2)])
       = Inl (EndDeref CloudInfo)"
    by (simp add: tracking_state_def sample_def sched_defs)
next
  show "run late_outlier_trace initialization = Inl (EndDeref Outlier)"
    by (simp add: late_outlier_trace_def sched_defs)
next
  show "run late_info_trace initialization = Inl (EndDeref CloudInfo)"
    by (simp add: late_info_trace_def sched_defs)
qed


text \<open>
  The hypothesis of the theorem holds on a state with scans at 1.0 and 1.2 after the
  cursor 0.9, and there the read of the scan map is not through \<^verbatim>\<open>end()\<close>.
\<close>

theorem side_channel_selection_unchecked_witness:
  "\<not> empty_buf (pclBuf ((straddle_state 0.9) \<lparr> last_scan_time := 1.2 \<rparr>))
   \<and> getLastTime (pclBuf ((straddle_state 0.9) \<lparr> last_scan_time := 1.2 \<rparr>))
       = Some (last_scan_time ((straddle_state 0.9) \<lparr> last_scan_time := 1.2 \<rparr>))
   \<and> getTime (estimator ((straddle_state 0.9) \<lparr> last_scan_time := 1.2 \<rparr>))
       < last_scan_time ((straddle_state 0.9) \<lparr> last_scan_time := 1.2 \<rparr>)
   \<and> upper_bound (measMap (pclBuf ((straddle_state 0.9) \<lparr> last_scan_time := 1.2 \<rparr>)))
        (getTime (estimator ((straddle_state 0.9) \<lparr> last_scan_time := 1.2 \<rparr>))) \<noteq> None
   \<and> processPointClouds ((straddle_state 0.9) \<lparr> last_scan_time := 1.2 \<rparr>)
        \<noteq> Inl (EndDeref Scan)"
proof -
  let ?s = "(straddle_state 0.9) \<lparr> last_scan_time := 1.2 \<rparr>"
  have h: "\<not> empty_buf (pclBuf ?s)"
    "getLastTime (pclBuf ?s) = Some (last_scan_time ?s)"
    "getTime (estimator ?s) < last_scan_time ?s"
    by (simp_all add: straddle_state_def tracking_state_def sched_defs)
  note inst = side_channel_selection_unchecked [where s = ?s and evs = late_outlier_trace]
  from inst h have u: "upper_bound (measMap (pclBuf ?s)) (getTime (estimator ?s)) \<noteq> None"
    by blast
  from inst u have "processPointClouds ?s \<noteq> Inl (EndDeref Scan)"
    by blast
  with h u show ?thesis by blast
qed

end
